theory Spec2Isabelle
  imports Main "HOL-Library.Multiset"
begin

section \<open>Achievement and streak engine: data model\<close>

text \<open>
  The engine lives in two service modules: the streak service
  (\<^verbatim>\<open>updateWorkoutStreak\<close>, \<^verbatim>\<open>checkStreakMilestones\<close>, \<^verbatim>\<open>checkAndResetStreak\<close>) and the
  gamification service (\<^verbatim>\<open>awardPoints\<close>, \<^verbatim>\<open>checkAndAwardBadges\<close> with its criterion
  helpers, \<^verbatim>\<open>getLeaderboard\<close>, \<^verbatim>\<open>getUserRank\<close>). Both work on Mongoose collections.

  Modelling decisions:
  \<^item> An ObjectId is a natural number. A JavaScript Number is an \<^typ>\<open>int\<close> (streaks, points,
    targets and biometric values are treated as integers; rounding of doubles is not modelled).
  \<^item> A Date is the number of milliseconds since the epoch. \<^verbatim>\<open>startOfDay\<close>, \<^verbatim>\<open>endOfDay\<close> and
    \<^verbatim>\<open>subDays\<close> of date-fns, and \<^verbatim>\<open>setHours\<close> and \<^verbatim>\<open>setDate\<close>, work in the local time zone
    of the process, which nothing in the code fixes: the zone is the parameter \<open>z\<close> of every
    function that uses the calendar. The constant 86400000 is the one the code writes.
  \<^item> \<^verbatim>\<open>new Date()\<close> is the parameter \<open>now\<close> of each operation: one clock reading per call.
  \<^item> A collection is the list of its documents in storage order. \<^verbatim>\<open>findOne\<close> returns the first
    match in that order, \<^verbatim>\<open>save\<close> replaces the stored document that has the \<^verbatim>\<open>_id\<close> of the
    document saved, \<^verbatim>\<open>create\<close> appends.
  \<^item> Text built from template strings is kept as the template and its arguments.
  \<^item> Calls run one after the other; a call is not interleaved with another one.
  \<^item> Fields that the engine never reads (email, profile picture, badge icon and so on) and the
    logger are left out.
\<close>

type_synonym oid = nat
type_synonym date = int

record user =
  u_id :: oid
  u_name :: string
  accountStatus :: string
  currentWorkoutStreak :: int
  longestWorkoutStreak :: int
  totalPoints :: int
  badges :: "(oid \<times> date) list"
  lastWorkoutDate :: "date option"

datatype description =
    EarnedPoints int string
  | EarnedBadge string
  | ReachedStreak int
  | OtherDescription string

record activity =
  a_userId :: oid
  activityType :: string
  a_description :: description
  a_relatedId :: "oid option"
  postType :: "string option"
  pointsEarned :: int
  createdAt :: date

datatype notice =
    StreakDays int
  | StreakBroken int
  | NewBadge string

record notification =
  n_userId :: oid
  n_type :: string
  n_notice :: notice
  n_relatedId :: "oid option"
  n_priority :: string

record badge =
  b_id :: oid
  b_name :: string
  criteria_type :: string
  criteria_target :: "int option"
  criteria_metric :: string
  b_points :: int
  isActive :: bool

record goal =
  g_userId :: oid
  g_type :: string
  g_status :: string

record biometric =
  bm_userId :: oid
  bm_type :: string
  bm_value :: int
  bm_date :: date

record db =
  User_docs :: "user list"
  Badge_docs :: "badge list"
  ActivityLog_docs :: "activity list"
  Notification_docs :: "notification list"
  Goal_docs :: "goal list"
  BiometricData_docs :: "biometric list"

subsection \<open>Dates\<close>

text \<open>
  The functions of date-fns work in the local time of the process, and nothing in the
  code fixes the time zone. The time zone is therefore a parameter of every operation that
  reads the calendar:
  \<^item> \<open>startOfDay z t\<close> is the local midnight that begins the day of \<open>t\<close>;
  \<^item> \<open>dayLength z m\<close> is the length of the local day that begins at the midnight \<open>m\<close>
    (24 hours, or 23 or 25 hours where the clock changes), so that \<^verbatim>\<open>endOfDay\<close>, the last
    millisecond of the day of \<open>t\<close>, depends on the day of \<open>t\<close> only;
  \<^item> \<open>subDays z t n\<close> moves \<open>t\<close> back by \<open>n\<close> calendar days at the same local time
    (\<^verbatim>\<open>setDate(getDate() - n)\<close>; forward for negative \<open>n\<close>).
  \<open>DAY\<close> is the literal \<^verbatim>\<open>1000 * 60 * 60 * 24\<close> of the source.
\<close>

definition DAY :: int where
  "DAY = 1000 * 60 * 60 * 24"

record zone =
  startOfDay :: "date \<Rightarrow> date"
  dayLength :: "date \<Rightarrow> int"
  subDays :: "date \<Rightarrow> int \<Rightarrow> date"

definition endOfDay :: "zone \<Rightarrow> date \<Rightarrow> date" where
  "endOfDay z t = startOfDay z t + dayLength z (startOfDay z t) - 1"

subsection \<open>Storage calls that may reject\<close>

text \<open>
  Every \<^verbatim>\<open>await\<close> on a Mongoose call either resolves or rejects. The world is the database
  together with a fault schedule: the next storage call rejects exactly when the head of the
  schedule is \<open>True\<close>; an empty schedule means that no further call rejects. A rejected call
  leaves the database as it was. An operation returns its result, \<open>Inl\<close> for a thrown error,
  together with the world it leaves behind, so that what a failed call has already written
  stays visible.
\<close>

datatype error = UserNotFound | StoreError | TypeError

type_synonym world = "db \<times> bool list"
type_synonym 'a action = "world \<Rightarrow> (error + 'a) \<times> world"

definition io :: "(db \<Rightarrow> 'a \<times> db) \<Rightarrow> 'a action" where
  "io f w = (case w of (d, fs) \<Rightarrow>
     (case fs of
        True # rest \<Rightarrow> (Inl StoreError, (d, rest))
      | _ \<Rightarrow> (case f d of (a, d') \<Rightarrow> (Inr a, (d', tl fs)))))"

definition resolve :: "'a \<Rightarrow> 'a action" where
  "resolve a w = (Inr a, w)"

definition throw :: "error \<Rightarrow> 'a action" where
  "throw e w = (Inl e, w)"

definition andThen :: "'a action \<Rightarrow> ('a \<Rightarrow> 'b action) \<Rightarrow> 'b action" where
  "andThen m f w = (case m w of
       (Inl e, w') \<Rightarrow> (Inl e, w')
     | (Inr a, w') \<Rightarrow> f a w')"

definition catch :: "'a action \<Rightarrow> (error \<Rightarrow> 'a action) \<Rightarrow> 'a action" where
  "catch m h w = (case m w of
       (Inl e, w') \<Rightarrow> h e w'
     | (Inr a, w') \<Rightarrow> (Inr a, w'))"

subsection \<open>Collection primitives\<close>

definition findById :: "oid \<Rightarrow> db \<Rightarrow> user option \<times> db" where
  "findById userId d = (find (\<lambda>u. u_id u = userId) (User_docs d), d)"

definition save :: "user \<Rightarrow> db \<Rightarrow> unit \<times> db" where
  "save user d =
     ((), d\<lparr>User_docs := map (\<lambda>v. if u_id v = u_id user then user else v) (User_docs d)\<rparr>)"

definition countUsers :: "(user \<Rightarrow> bool) \<Rightarrow> db \<Rightarrow> int \<times> db" where
  "countUsers q d = (int (length (filter q (User_docs d))), d)"

definition findOneActivity :: "(activity \<Rightarrow> bool) \<Rightarrow> db \<Rightarrow> activity option \<times> db" where
  "findOneActivity q d = (find q (ActivityLog_docs d), d)"

definition countActivities :: "(activity \<Rightarrow> bool) \<Rightarrow> db \<Rightarrow> int \<times> db" where
  "countActivities q d = (int (length (filter q (ActivityLog_docs d))), d)"

definition createActivity :: "activity \<Rightarrow> db \<Rightarrow> unit \<times> db" where
  "createActivity a d = ((), d\<lparr>ActivityLog_docs := ActivityLog_docs d @ [a]\<rparr>)"

definition countGoals :: "(goal \<Rightarrow> bool) \<Rightarrow> db \<Rightarrow> int \<times> db" where
  "countGoals q d = (int (length (filter q (Goal_docs d))), d)"

definition findOneGoal :: "(goal \<Rightarrow> bool) \<Rightarrow> db \<Rightarrow> goal option \<times> db" where
  "findOneGoal q d = (find q (Goal_docs d), d)"

definition findOneBiometric :: "(biometric \<Rightarrow> bool) \<Rightarrow> db \<Rightarrow> biometric option \<times> db" where
  "findOneBiometric q d = (find q (BiometricData_docs d), d)"

text \<open>
  \<^verbatim>\<open>findOne(q).sort({date: 1})\<close> and \<^verbatim>\<open>findOne(q).sort({date: -1})\<close>: the matching document
  with the least (greatest) date; among equal dates the first in storage order.
\<close>

definition findOneBiometricByDate ::
  "bool \<Rightarrow> (biometric \<Rightarrow> bool) \<Rightarrow> db \<Rightarrow> biometric option \<times> db" where
  "findOneBiometricByDate ascending q d =
     ((case filter q (BiometricData_docs d) of
         [] \<Rightarrow> None
       | x # xs \<Rightarrow>
           Some (fold (\<lambda>b best.
                   if (if ascending then bm_date b < bm_date best else bm_date best < bm_date b)
                   then b else best) xs x)), d)"

definition findActiveBadges :: "db \<Rightarrow> badge list \<times> db" where
  "findActiveBadges d = (filter isActive (Badge_docs d), d)"

definition createNotification :: "notification \<Rightarrow> db \<Rightarrow> unit \<times> db" where
  "createNotification n d = ((), d\<lparr>Notification_docs := Notification_docs d @ [n]\<rparr>)"

section \<open>Streak service\<close>

definition workoutOn :: "oid \<Rightarrow> date \<Rightarrow> date \<Rightarrow> activity \<Rightarrow> bool" where
  "workoutOn userId lo hi a =
     (a_userId a = userId \<and> activityType a = ''workout_completed''
      \<and> lo \<le> createdAt a \<and> createdAt a \<le> hi)"

definition milestones :: "int list" where
  "milestones = [3, 7, 14, 21, 30, 50, 100, 365]"

definition majorMilestones :: "int list" where
  "majorMilestones = [7, 30, 100]"

definition bonusPoints :: "int \<Rightarrow> int" where
  "bonusPoints streak = (if streak = 7 then 50 else if streak = 30 then 200 else 500)"

definition milestoneNotification :: "user \<Rightarrow> notification" where
  "milestoneNotification user =
     \<lparr>n_userId = u_id user, n_type = ''streak_milestone'',
      n_notice = StreakDays (currentWorkoutStreak user),
      n_relatedId = None, n_priority = ''high''\<rparr>"

definition milestoneActivity :: "user \<Rightarrow> date \<Rightarrow> activity" where
  "milestoneActivity user now =
     \<lparr>a_userId = u_id user, activityType = ''streak_milestone'',
      a_description = ReachedStreak (currentWorkoutStreak user),
      a_relatedId = None, postType = None,
      pointsEarned = bonusPoints (currentWorkoutStreak user), createdAt = now\<rparr>"

text \<open>
  \<^verbatim>\<open>checkStreakMilestones\<close> mutates the in-memory user document (the bonus) and writes a
  notification and a ledger entry; the model returns the mutated document.
\<close>

definition checkStreakMilestones :: "user \<Rightarrow> date \<Rightarrow> user action" where
  "checkStreakMilestones user now =
     (if currentWorkoutStreak user \<in> set milestones then
        andThen (io (createNotification (milestoneNotification user))) (\<lambda>_.
          if currentWorkoutStreak user \<in> set majorMilestones then
            andThen (io (createActivity (milestoneActivity user now))) (\<lambda>_.
              resolve (user\<lparr>totalPoints :=
                      totalPoints user + bonusPoints (currentWorkoutStreak user)\<rparr>))
          else resolve user)
      else resolve user)"

definition loggedToday :: "zone \<Rightarrow> user \<Rightarrow> date \<Rightarrow> bool" where
  "loggedToday z user today =
     (case lastWorkoutDate user of None \<Rightarrow> False | Some d \<Rightarrow> startOfDay z d = today)"

definition bumpStreak :: "user \<Rightarrow> bool \<Rightarrow> user" where
  "bumpStreak user workedYesterday =
     (if workedYesterday \<or> lastWorkoutDate user = None
      then user\<lparr>currentWorkoutStreak := currentWorkoutStreak user + 1\<rparr>
      else user\<lparr>currentWorkoutStreak := 1\<rparr>)"

definition bumpLongest :: "user \<Rightarrow> user" where
  "bumpLongest user =
     (if currentWorkoutStreak user > longestWorkoutStreak user
      then user\<lparr>longestWorkoutStreak := currentWorkoutStreak user\<rparr>
      else user)"

definition todayWorkout :: "zone \<Rightarrow> oid \<Rightarrow> date \<Rightarrow> db \<Rightarrow> activity option \<times> db" where
  "todayWorkout z userId now =
     findOneActivity (workoutOn userId (startOfDay z now) (endOfDay z now))"

definition yesterdayWorkout :: "zone \<Rightarrow> oid \<Rightarrow> date \<Rightarrow> db \<Rightarrow> activity option \<times> db" where
  "yesterdayWorkout z userId now =
     (let yesterday = startOfDay z (subDays z (startOfDay z now) 1)
      in findOneActivity (workoutOn userId yesterday (endOfDay z yesterday)))"

definition updateWorkoutStreak :: "zone \<Rightarrow> oid \<Rightarrow> date \<Rightarrow> int action" where
  "updateWorkoutStreak z userId now =
     andThen (io (findById userId)) (\<lambda>found.
       case found of
         None \<Rightarrow> throw UserNotFound
       | Some user \<Rightarrow>
           andThen (io (todayWorkout z userId now)) (\<lambda>tw.
             if loggedToday z user (startOfDay z now) then resolve (currentWorkoutStreak user)
             else
               andThen (io (yesterdayWorkout z userId now)) (\<lambda>yw.
                 if tw \<noteq> None then
                   andThen (checkStreakMilestones
                              ((bumpLongest (bumpStreak user (yw \<noteq> None)))
                                 \<lparr>lastWorkoutDate := Some now\<rparr>) now)
                     (\<lambda>user'. andThen (io (save user'))
                        (\<lambda>_. resolve (currentWorkoutStreak user')))
                 else resolve (currentWorkoutStreak user))))"

definition brokenNotification :: "oid \<Rightarrow> int \<Rightarrow> notification" where
  "brokenNotification userId oldStreak =
     \<lparr>n_userId = userId, n_type = ''streak_milestone'',
      n_notice = StreakBroken oldStreak,
      n_relatedId = None, n_priority = ''medium''\<rparr>"

definition checkAndResetStreak :: "zone \<Rightarrow> oid \<Rightarrow> date \<Rightarrow> unit action" where
  "checkAndResetStreak z userId now =
     catch
       (andThen (io (findById userId)) (\<lambda>found.
          case found of
            None \<Rightarrow> resolve ()
          | Some user \<Rightarrow>
              (case lastWorkoutDate user of
                 None \<Rightarrow> resolve ()
               | Some lw \<Rightarrow>
                   let today = startOfDay z now;
                       lastWorkout = startOfDay z lw;
                       daysSinceLastWorkout = (today - lastWorkout) div DAY
                   in
                   if daysSinceLastWorkout > 1 \<and> currentWorkoutStreak user > 0 then
                     andThen (io (save (user\<lparr>currentWorkoutStreak := 0\<rparr>))) (\<lambda>_.
                       io (createNotification
                             (brokenNotification userId (currentWorkoutStreak user))))
                   else resolve ())))
       (\<lambda>_. resolve ())"

section \<open>Gamification service\<close>

definition pointsActivity :: "oid \<Rightarrow> int \<Rightarrow> string \<Rightarrow> date \<Rightarrow> activity" where
  "pointsActivity userId points reason now =
     \<lparr>a_userId = userId, activityType = ''points_earned'',
      a_description = EarnedPoints points reason,
      a_relatedId = None, postType = None,
      pointsEarned = points, createdAt = now\<rparr>"

definition awardPoints :: "oid \<Rightarrow> int \<Rightarrow> string \<Rightarrow> date \<Rightarrow> int action" where
  "awardPoints userId points reason now =
     andThen (io (findById userId)) (\<lambda>found.
       case found of
         None \<Rightarrow> throw UserNotFound
       | Some user \<Rightarrow>
           andThen (io (save (user\<lparr>totalPoints := totalPoints user + points\<rparr>))) (\<lambda>_.
             andThen (io (createActivity (pointsActivity userId points reason now))) (\<lambda>_.
               resolve (totalPoints user + points))))"

subsection \<open>Badge criteria\<close>

text \<open>
  \<^verbatim>\<open>criteria.target\<close> is an optional Number; a comparison \<^verbatim>\<open>x >= undefined\<close> is false.
\<close>

definition reaches :: "int \<Rightarrow> int option \<Rightarrow> bool" where
  "reaches x target = (case target of None \<Rightarrow> False | Some t \<Rightarrow> t \<le> x)"

fun waterLoop :: "zone \<Rightarrow> nat \<Rightarrow> oid \<Rightarrow> date \<Rightarrow> int \<Rightarrow> int action" where
  "waterLoop z 0 userId checkDate streak = resolve streak"
| "waterLoop z (Suc k) userId checkDate streak =
     andThen (io (findOneBiometric (\<lambda>b. bm_userId b = userId \<and> bm_type b = ''water_intake''
                                      \<and> checkDate \<le> bm_date b \<and> bm_date b < subDays z checkDate (- 1))))
       (\<lambda>waterIntake.
          case waterIntake of
            None \<Rightarrow> resolve streak
          | Some b \<Rightarrow>
              if 2000 \<le> bm_value b
              then waterLoop z k userId (subDays z checkDate 1) (streak + 1)
              else resolve streak)"

definition calculateWaterStreak :: "zone \<Rightarrow> oid \<Rightarrow> date \<Rightarrow> int action" where
  "calculateWaterStreak z userId now =
     andThen (io (findById userId)) (\<lambda>_. waterLoop z 365 userId (startOfDay z now) 0)"

definition checkStreakBadge :: "zone \<Rightarrow> oid \<Rightarrow> badge \<Rightarrow> date \<Rightarrow> bool action" where
  "checkStreakBadge z userId badge now =
     andThen (io (findById userId)) (\<lambda>found.
       if criteria_metric badge = ''workout_streak'' then
         (case found of
            None \<Rightarrow> throw TypeError
          | Some user \<Rightarrow> resolve (reaches (currentWorkoutStreak user) (criteria_target badge)))
       else if criteria_metric badge = ''water_goal_streak'' then
         andThen (calculateWaterStreak z userId now) (\<lambda>waterStreak.
           resolve (reaches waterStreak (criteria_target badge)))
       else resolve False)"

definition checkCountBadge :: "oid \<Rightarrow> badge \<Rightarrow> bool action" where
  "checkCountBadge userId badge =
     (if criteria_metric badge = ''workouts_completed'' then
        andThen (io (countActivities
                  (\<lambda>a. a_userId a = userId \<and> activityType a = ''workout_completed'')))
          (\<lambda>totalWorkouts. resolve (reaches totalWorkouts (criteria_target badge)))
      else if criteria_metric badge = ''meal_plans_completed'' then
        andThen (io (countActivities
                  (\<lambda>a. a_userId a = userId \<and> activityType a = ''meal_logged'')))
          (\<lambda>completedMealPlans. resolve (reaches completedMealPlans (criteria_target badge)))
      else if criteria_metric badge = ''goals_completed'' then
        andThen (io (countGoals (\<lambda>g. g_userId g = userId \<and> g_status g = ''completed'')))
          (\<lambda>completedGoals. resolve (reaches completedGoals (criteria_target badge)))
      else if criteria_metric badge = ''encouragements_given'' then
        andThen (io (countActivities
                  (\<lambda>a. a_userId a = userId \<and> activityType a = ''community_post''
                       \<and> postType a = Some ''motivation'')))
          (\<lambda>encouragements. resolve (reaches encouragements (criteria_target badge)))
      else resolve False)"

definition checkValueBadge :: "oid \<Rightarrow> badge \<Rightarrow> bool action" where
  "checkValueBadge userId badge =
     andThen (io (findById userId)) (\<lambda>_.
       if criteria_metric badge = ''weight_lost'' then
         andThen (io (findOneBiometricByDate True
                        (\<lambda>b. bm_userId b = userId \<and> bm_type b = ''weight''))) (\<lambda>firstWeight.
           andThen (io (findOneBiometricByDate False
                          (\<lambda>b. bm_userId b = userId \<and> bm_type b = ''weight''))) (\<lambda>latestWeight.
             case (firstWeight, latestWeight) of
               (Some f, Some l) \<Rightarrow>
                 resolve (reaches (bm_value f - bm_value l) (criteria_target badge))
             | _ \<Rightarrow> resolve False))
       else resolve False)"

definition checkCustomBadge :: "oid \<Rightarrow> badge \<Rightarrow> bool action" where
  "checkCustomBadge userId badge =
     andThen (io (findById userId)) (\<lambda>_.
       if criteria_metric badge = ''goal_weight_reached'' then
         andThen (io (findOneGoal (\<lambda>g. g_userId g = userId \<and> g_type g = ''weight''
                                      \<and> g_status g = ''completed'')))
           (\<lambda>weightGoal. resolve (weightGoal \<noteq> None))
       else if criteria_metric badge = ''community_joined'' then
         andThen (io (findOneActivity
                        (\<lambda>a. a_userId a = userId \<and> activityType a = ''community_post'')))
           (\<lambda>hasPosted. resolve (hasPosted \<noteq> None))
       else resolve False)"

definition hasEarned :: "zone \<Rightarrow> oid \<Rightarrow> badge \<Rightarrow> date \<Rightarrow> bool action" where
  "hasEarned z userId badge now =
     (if criteria_type badge = ''streak'' then checkStreakBadge z userId badge now
      else if criteria_type badge = ''count'' then checkCountBadge userId badge
      else if criteria_type badge = ''value'' then checkValueBadge userId badge
      else if criteria_type badge = ''custom'' then checkCustomBadge userId badge
      else resolve False)"

subsection \<open>Awarding badges\<close>

definition badgeNotification :: "oid \<Rightarrow> badge \<Rightarrow> notification" where
  "badgeNotification userId badge =
     \<lparr>n_userId = userId, n_type = ''badge_earned'', n_notice = NewBadge (b_name badge),
      n_relatedId = Some (b_id badge), n_priority = ''high''\<rparr>"

definition badgeActivity :: "oid \<Rightarrow> badge \<Rightarrow> date \<Rightarrow> activity" where
  "badgeActivity userId badge now =
     \<lparr>a_userId = userId, activityType = ''badge_earned'',
      a_description = EarnedBadge (b_name badge),
      a_relatedId = Some (b_id badge), postType = None,
      pointsEarned = b_points badge, createdAt = now\<rparr>"

definition pushBadge :: "user \<Rightarrow> badge \<Rightarrow> date \<Rightarrow> user" where
  "pushBadge user badge now =
     user\<lparr>badges := badges user @ [(b_id badge, now)],
          totalPoints := totalPoints user + b_points badge\<rparr>"

text \<open>
  The \<^verbatim>\<open>for\<close> loop over the active badges. It carries the in-memory user document and the
  list of badges earned in this call; \<open>earnedBadgeIds\<close> is computed once before the loop.
\<close>

fun awardLoop ::
  "zone \<Rightarrow> oid \<Rightarrow> date \<Rightarrow> oid list \<Rightarrow> badge list \<Rightarrow> user \<Rightarrow> badge list \<Rightarrow> (user \<times> badge list) action"
where
  "awardLoop z userId now earnedBadgeIds [] user newBadgesEarned =
     resolve (user, newBadgesEarned)"
| "awardLoop z userId now earnedBadgeIds (badge # rest) user newBadgesEarned =
     (if b_id badge \<in> set earnedBadgeIds
      then awardLoop z userId now earnedBadgeIds rest user newBadgesEarned
      else
        andThen (hasEarned z userId badge now) (\<lambda>earned.
          if earned then
            andThen (io (createNotification (badgeNotification userId badge))) (\<lambda>_.
              andThen (io (createActivity (badgeActivity userId badge now))) (\<lambda>_.
                awardLoop z userId now earnedBadgeIds rest
                  (pushBadge user badge now) (newBadgesEarned @ [badge])))
          else awardLoop z userId now earnedBadgeIds rest user newBadgesEarned))"

definition evaluateBadges :: "zone \<Rightarrow> oid \<Rightarrow> date \<Rightarrow> badge list action" where
  "evaluateBadges z userId now =
     andThen (io (findById userId)) (\<lambda>found.
       case found of
         None \<Rightarrow> throw UserNotFound
       | Some user \<Rightarrow>
           andThen (io findActiveBadges) (\<lambda>allBadges.
             andThen (awardLoop z userId now (map fst (badges user)) allBadges user [])
               (\<lambda>(user', newBadgesEarned).
                  if newBadgesEarned \<noteq> []
                  then andThen (io (save user')) (\<lambda>_. resolve newBadgesEarned)
                  else resolve newBadgesEarned)))"

text \<open>
  \<^verbatim>\<open>checkAndAwardBadges\<close> is the \<^verbatim>\<open>try\<close> block above inside a handler that logs the
  error and returns the empty array.
\<close>

definition checkAndAwardBadges :: "zone \<Rightarrow> oid \<Rightarrow> date \<Rightarrow> badge list action" where
  "checkAndAwardBadges z userId now = catch (evaluateBadges z userId now) (\<lambda>_. resolve [])"

subsection \<open>Leaderboard\<close>

record entry =
  rank :: int
  e_userId :: oid
  e_name :: string
  e_totalPoints :: int
  currentStreak :: int
  longestStreak :: int

definition sortCriteria :: "string \<Rightarrow> user \<Rightarrow> int" where
  "sortCriteria metric =
     (if metric = ''totalPoints'' then totalPoints
      else if metric = ''currentWorkoutStreak'' then currentWorkoutStreak
      else if metric = ''longestWorkoutStreak'' then longestWorkoutStreak
      else totalPoints)"

text \<open>
  \<^verbatim>\<open>User.find({accountStatus: 'active'}).sort({key: -1}).limit(limit)\<close>. The query names
  one sort key and nothing else, so the order in which the store returns documents with
  equal keys is the store's choice. The store's sorting routine is therefore the parameter
  \<open>srt\<close>, and \<open>sortsDescending\<close> is all the query asks of it. A limit of 0 means no limit.
\<close>

definition active :: "user \<Rightarrow> bool" where
  "active u = (accountStatus u = ''active'')"

definition sortsDescending ::
  "((user \<Rightarrow> int) \<Rightarrow> user list \<Rightarrow> user list) \<Rightarrow> (user \<Rightarrow> int) \<Rightarrow> user list \<Rightarrow> bool" where
  "sortsDescending srt key docs =
     (mset (srt key docs) = mset docs \<and> sorted (rev (map key (srt key docs))))"

definition findActiveSorted ::
  "((user \<Rightarrow> int) \<Rightarrow> user list \<Rightarrow> user list) \<Rightarrow> (user \<Rightarrow> int) \<Rightarrow> nat \<Rightarrow> db \<Rightarrow> user list \<times> db"
where
  "findActiveSorted srt key limit d =
     (let sorted_docs = srt key (filter active (User_docs d))
      in (if limit = 0 then sorted_docs else take limit sorted_docs, d))"

definition toEntry :: "nat \<times> user \<Rightarrow> entry" where
  "toEntry p = (case p of (index, user) \<Rightarrow>
     \<lparr>rank = int index + 1, e_userId = u_id user, e_name = u_name user,
      e_totalPoints = totalPoints user, currentStreak = currentWorkoutStreak user,
      longestStreak = longestWorkoutStreak user\<rparr>)"

definition getLeaderboard ::
  "((user \<Rightarrow> int) \<Rightarrow> user list \<Rightarrow> user list) \<Rightarrow> nat \<Rightarrow> string \<Rightarrow> entry list action" where
  "getLeaderboard srt limit metric =
     andThen (io (findActiveSorted srt (sortCriteria metric) limit)) (\<lambda>leaderboard.
       resolve (map toEntry (enumerate 0 leaderboard)))"

definition getUserRank :: "oid \<Rightarrow> string \<Rightarrow> int action" where
  "getUserRank userId metric =
     andThen (io (findById userId)) (\<lambda>found.
       case found of
         None \<Rightarrow> throw UserNotFound
       | Some user \<Rightarrow>
           andThen
             (if metric = ''totalPoints'' then
                io (countUsers (\<lambda>u. active u \<and> totalPoints user < totalPoints u))
              else if metric = ''currentWorkoutStreak'' then
                io (countUsers (\<lambda>u. active u
                                    \<and> currentWorkoutStreak user < currentWorkoutStreak u))
              else
                io (countUsers (\<lambda>u. active u \<and> totalPoints user < totalPoints u)))
             (\<lambda>higherRankedCount. resolve (higherRankedCount + 1)))"

section \<open>Effects of the streak service on the database\<close>

text \<open>
  What a streak update that runs to completion leaves in the database, written as functions
  of the database before the call. The lemmas below prove that the service computes them.
\<close>

definition milestoneBonus :: "int \<Rightarrow> int" where
  "milestoneBonus n = (if n \<in> set majorMilestones then bonusPoints n else 0)"

definition milestoneEffect :: "user \<Rightarrow> date \<Rightarrow> db \<Rightarrow> db" where
  "milestoneEffect user now d =
     d\<lparr>Notification_docs := Notification_docs d @
        (if currentWorkoutStreak user \<in> set milestones then [milestoneNotification user] else []),
       ActivityLog_docs := ActivityLog_docs d @
        (if currentWorkoutStreak user \<in> set majorMilestones
         then [milestoneActivity user now] else [])\<rparr>"

definition streakUpdate :: "user \<Rightarrow> bool \<Rightarrow> date \<Rightarrow> user" where
  "streakUpdate user yw now = (bumpLongest (bumpStreak user yw))\<lparr>lastWorkoutDate := Some now\<rparr>"

definition updateEffect :: "zone \<Rightarrow> user \<Rightarrow> date \<Rightarrow> db \<Rightarrow> db" where
  "updateEffect z user now d =
    (let u1 = streakUpdate user (fst (yesterdayWorkout z (u_id user) now d) \<noteq> None) now;
         u2 = u1\<lparr>totalPoints := totalPoints u1 + milestoneBonus (currentWorkoutStreak u1)\<rparr>
     in snd (save u2 (milestoneEffect u1 now d)))"




section \<open>Leaderboard: the sorted field, and two sorting routines\<close>

text \<open>The field of a leaderboard entry that holds the metric the board was sorted on.\<close>

definition entryMetric :: "string \<Rightarrow> entry \<Rightarrow> int" where
  "entryMetric metric =
     (if metric = ''totalPoints'' then e_totalPoints
      else if metric = ''currentWorkoutStreak'' then currentStreak
      else if metric = ''longestWorkoutStreak'' then longestStreak
      else e_totalPoints)"

text \<open>
  Two sorting routines a store may use. Both sort descending on the key; the first keeps
  documents with equal keys in storage order, the second reverses them.
\<close>

definition stableDescending :: "(user \<Rightarrow> int) \<Rightarrow> user list \<Rightarrow> user list" where
  "stableDescending key docs = sort_key (\<lambda>u. - key u) docs"

definition reversedAscending :: "(user \<Rightarrow> int) \<Rightarrow> user list \<Rightarrow> user list" where
  "reversedAscending key docs = rev (sort_key key docs)"

section \<open>Sequences of operations and their invariants\<close>

text \<open>
  The operations of the engine, and the ledger write of the caller that precedes a streak
  update. Each operation runs with its own clock reading and its own fault schedule.
\<close>

datatype operation =
    QualifyingEvent oid date
  | DailySweep oid date
  | Credit oid int string date
  | Evaluate oid date
  | LedgerAppend activity

fun perform :: "zone \<Rightarrow> operation \<Rightarrow> bool list \<Rightarrow> db \<Rightarrow> db" where
  "perform z (QualifyingEvent userId now) fs d = fst (snd (updateWorkoutStreak z userId now (d, fs)))"
| "perform z (DailySweep userId now) fs d = fst (snd (checkAndResetStreak z userId now (d, fs)))"
| "perform z (Credit userId points reason now) fs d =
     fst (snd (awardPoints userId points reason now (d, fs)))"
| "perform z (Evaluate userId now) fs d = fst (snd (checkAndAwardBadges z userId now (d, fs)))"
| "perform z (LedgerAppend a) fs d = fst (snd (io (createActivity a) (d, fs)))"

fun performAll :: "zone \<Rightarrow> (operation \<times> bool list) list \<Rightarrow> db \<Rightarrow> db" where
  "performAll z [] d = d"
| "performAll z ((operation, fs) # rest) d = performAll z rest (perform z operation fs d)"

fun nonNegativeCredit :: "operation \<Rightarrow> bool" where
  "nonNegativeCredit (Credit userId points reason now) = (0 \<le> points)"
| "nonNegativeCredit _ = True"

text \<open>The progress invariant of a user record, and of all of them.\<close>

definition progressOk :: "user \<Rightarrow> bool" where
  "progressOk u = (currentWorkoutStreak u \<le> longestWorkoutStreak u \<and> 0 \<le> totalPoints u)"

definition allProgressOk :: "db \<Rightarrow> bool" where
  "allProgressOk d = list_all progressOk (User_docs d)"

definition rewardsOk :: "db \<Rightarrow> bool" where
  "rewardsOk d = list_all (\<lambda>b. 0 \<le> b_points b) (Badge_docs d)"

definition engineOk :: "db \<Rightarrow> bool" where
  "engineOk d = (allProgressOk d \<and> rewardsOk d)"

definition badgesOk :: "db \<Rightarrow> bool" where
  "badgesOk d = (list_all (\<lambda>u. distinct (map fst (badges u))) (User_docs d)
                 \<and> distinct (map b_id (Badge_docs d)))"

section \<open>Reasoning about actions\<close>

text \<open>
  \<open>wp m Q w\<close>: running \<open>m\<close> in world \<open>w\<close> ends with a result and a world that satisfy \<open>Q\<close>.
  \<open>failing fs\<close>: the next storage call rejects.
\<close>

definition wp :: "'a action \<Rightarrow> (error + 'a \<Rightarrow> world \<Rightarrow> bool) \<Rightarrow> world \<Rightarrow> bool" where
  "wp m Q w = (case m w of (r, w') \<Rightarrow> Q r w')"

definition failing :: "bool list \<Rightarrow> bool" where
  "failing fs = (fs \<noteq> [] \<and> hd fs)"

text \<open>
  An action only reads when it leaves the database as it is under every fault schedule, and
  whenever it resolves it resolves with the value of the fault-free run.
\<close>

definition reads :: "'a action \<Rightarrow> bool" where
  "reads m = (\<forall>d. (\<exists>r. m (d, []) = (r, (d, [])))
     \<and> (\<forall>fs. wp m (\<lambda>r (d', fs'). d' = d \<and>
           (case r of Inl e \<Rightarrow> True | Inr a \<Rightarrow> fst (m (d, [])) = Inr a)) (d, fs)))"

text \<open>
  The criteria of a user read that user's current streak, the goals, the biometric data and
  ledger entries of types other than \<open>badge_earned\<close>. Two databases that agree on these give
  the same verdicts.
\<close>

definition sameCriteria :: "oid \<Rightarrow> db \<Rightarrow> db \<Rightarrow> bool" where
  "sameCriteria userId d d' =
     (map_option currentWorkoutStreak (fst (findById userId d'))
        = map_option currentWorkoutStreak (fst (findById userId d))
      \<and> filter (\<lambda>a. activityType a \<noteq> ''badge_earned'') (ActivityLog_docs d')
        = filter (\<lambda>a. activityType a \<noteq> ''badge_earned'') (ActivityLog_docs d)
      \<and> Goal_docs d' = Goal_docs d
      \<and> BiometricData_docs d' = BiometricData_docs d)"

text \<open>
  What a completed run of the award loop guarantees, in terms of the database, the in-memory
  user and the list of new badges it started from.
\<close>

definition loopDone ::
  "zone \<Rightarrow> oid \<Rightarrow> date \<Rightarrow> oid list \<Rightarrow> badge list \<Rightarrow> db \<Rightarrow> user \<Rightarrow> badge list
     \<Rightarrow> error + user \<times> badge list \<Rightarrow> world \<Rightarrow> bool" where
  "loopDone z userId now earnedBadgeIds bs d user newBadgesEarned r w =
     (case r of
        Inl e \<Rightarrow> True
      | Inr (user', new') \<Rightarrow>
          sameCriteria userId d (fst w)
          \<and> User_docs (fst w) = User_docs d \<and> Badge_docs (fst w) = Badge_docs d
          \<and> u_id user' = u_id user
          \<and> currentWorkoutStreak user' = currentWorkoutStreak user
          \<and> set (map fst (badges user)) \<subseteq> set (map fst (badges user'))
          \<and> (new' = [] \<longrightarrow> user' = user \<and> newBadgesEarned = [])
          \<and> list_all (\<lambda>b. b_id b \<in> set earnedBadgeIds
                          \<or> b_id b \<in> set (map fst (badges user'))
                          \<or> fst (hasEarned z userId b now (d, [])) = Inr False) bs)"

text \<open>What a completed evaluation leaves behind, seen from the database it started in.\<close>

definition evaluated :: "zone \<Rightarrow> oid \<Rightarrow> date \<Rightarrow> db \<Rightarrow> db \<Rightarrow> bool" where
  "evaluated z userId now d d1 =
     (\<exists>user1. fst (findById userId d1) = Some user1
        \<and> Badge_docs d1 = Badge_docs d
        \<and> sameCriteria userId d d1
        \<and> list_all (\<lambda>b. b_id b \<in> set (map fst (badges user1))
                        \<or> fst (hasEarned z userId b now (d, [])) = Inr False)
             (fst (findActiveBadges d)))"

section \<open>Example data\<close>

text \<open>The time zone of the examples: UTC, where every day has 24 hours.\<close>

definition utc :: zone where
  "utc = \<lparr>startOfDay = (\<lambda>t. t - t mod DAY), dayLength = (\<lambda>m. DAY),
          subDays = (\<lambda>t n. t - n * DAY)\<rparr>"

text \<open>
  A time zone whose clock goes forward by one hour at 02:00 of day 8: before that instant
  local time is UTC, after it local time is UTC plus one hour, and day 8 has 23 hours. A
  local time in the skipped hour is read with the offset before the change.
\<close>

definition HOUR :: int where
  "HOUR = 1000 * 60 * 60"




definition day :: "int \<Rightarrow> date" where
  "day k = k * DAY"

definition workoutAt :: "oid \<Rightarrow> date \<Rightarrow> activity" where
  "workoutAt userId t =
     \<lparr>a_userId = userId, activityType = ''workout_completed'',
      a_description = OtherDescription ''Completed day of workout plan'',
      a_relatedId = None, postType = None, pointsEarned = 15, createdAt = t\<rparr>"

definition member :: "oid \<Rightarrow> int \<Rightarrow> int \<Rightarrow> int \<Rightarrow> date option \<Rightarrow> user" where
  "member i streak longest points lw =
     \<lparr>u_id = i, u_name = ''member'', accountStatus = ''active'',
      currentWorkoutStreak = streak, longestWorkoutStreak = longest, totalPoints = points,
      badges = [], lastWorkoutDate = lw\<rparr>"

definition emptyDb :: db where
  "emptyDb = \<lparr>User_docs = [], Badge_docs = [], ActivityLog_docs = [], Notification_docs = [],
              Goal_docs = [], BiometricData_docs = []\<rparr>"

text \<open>
  A member on a six-day streak who trained yesterday (day 9) and today (day 10), and a member
  whose last recorded workout date is day 7 although the ledger holds workouts for day 9 and
  day 10 (the update of day 9 did not complete).
\<close>

definition sixDayDb :: db where
  "sixDayDb = emptyDb\<lparr>User_docs := [member 1 6 6 90 (Some (day 9 + 5000))],
       ActivityLog_docs := [workoutAt 1 (day 9 + 5000), workoutAt 1 (day 10 + 1000)]\<rparr>"

definition gapDb :: db where
  "gapDb = emptyDb\<lparr>User_docs := [member 1 5 5 75 (Some (day 7 + 5000))],
       ActivityLog_docs := [workoutAt 1 (day 9 + 5000), workoutAt 1 (day 10 + 1000)]\<rparr>"

text \<open>The database after the seventh day of the six-day member has been recorded.\<close>

definition sixDayAfter :: db where
  "sixDayAfter = emptyDb\<lparr>User_docs := [member 1 7 7 140 (Some (day 10 + 3600000))],
       ActivityLog_docs := [workoutAt 1 (day 9 + 5000), workoutAt 1 (day 10 + 1000),
          \<lparr>a_userId = 1, activityType = ''streak_milestone'',
           a_description = ReachedStreak 7, a_relatedId = None, postType = None,
           pointsEarned = 50, createdAt = day 10 + 3600000\<rparr>],
       Notification_docs := [\<lparr>n_userId = 1, n_type = ''streak_milestone'',
           n_notice = StreakDays 7, n_relatedId = None, n_priority = ''high''\<rparr>]\<rparr>"


text \<open>A member with no points and an empty ledger.\<close>

definition newcomerDb :: db where
  "newcomerDb = emptyDb\<lparr>User_docs := [member 1 0 0 0 None]\<rparr>"

text \<open>
  Two active members: the first leads on points, the second on longest streak.
\<close>

definition rivalsDb :: db where
  "rivalsDb = emptyDb\<lparr>User_docs := [member 1 1 1 100 None, member 2 2 10 0 None]\<rparr>"

text \<open>Two active members with equal points.\<close>

definition tieDb :: db where
  "tieDb = emptyDb\<lparr>User_docs := [member 1 3 3 50 None, member 2 4 4 50 None]\<rparr>"

definition boardEntry :: "int \<Rightarrow> oid \<Rightarrow> int \<Rightarrow> int \<Rightarrow> int \<Rightarrow> entry" where
  "boardEntry r i points streak longest =
     \<lparr>rank = r, e_userId = i, e_name = ''member'', e_totalPoints = points,
      currentStreak = streak, longestStreak = longest\<rparr>"

text \<open>
  Two badges of the default catalog, and the database of the member who has just reached a
  seven-day streak, with these badges in the catalog.
\<close>

definition firstStep :: badge where
  "firstStep = \<lparr>b_id = 11, b_name = ''First Step'', criteria_type = ''count'',
     criteria_target = Some 1, criteria_metric = ''workouts_completed'',
     b_points = 10, isActive = True\<rparr>"

definition weekWarrior :: badge where
  "weekWarrior = \<lparr>b_id = 12, b_name = ''Week Warrior'', criteria_type = ''streak'',
     criteria_target = Some 7, criteria_metric = ''workout_streak'',
     b_points = 50, isActive = True\<rparr>"

definition badgeDb :: db where
  "badgeDb = sixDayAfter\<lparr>Badge_docs := [firstStep, weekWarrior]\<rparr>"

text \<open>
  The default water badge, and a member with no workouts who logged 2500 ml of water for
  each of the days 5 to 11; the date of a biometric entry is the one the client sends, and
  the entry for day 11 is already stored on day 10.
\<close>

definition hydrationHero :: badge where
  "hydrationHero = \<lparr>b_id = 13, b_name = ''Hydration Hero'', criteria_type = ''streak'',
     criteria_target = Some 7, criteria_metric = ''water_goal_streak'',
     b_points = 50, isActive = True\<rparr>"

definition waterAt :: "date \<Rightarrow> biometric" where
  "waterAt t = \<lparr>bm_userId = 1, bm_type = ''water_intake'', bm_value = 2500, bm_date = t\<rparr>"

definition hydrationDb :: db where
  "hydrationDb = emptyDb\<lparr>User_docs := [member 1 0 0 0 None], Badge_docs := [hydrationHero],
     BiometricData_docs := map (\<lambda>k. waterAt (day k + 8 * HOUR)) [5, 6, 7, 8, 9, 10, 11]\<rparr>"

definition weekStart :: db where
  "weekStart = emptyDb\<lparr>User_docs := [member 1 6 6 90 (Some (day 9 + 5000))],
       ActivityLog_docs := [workoutAt 1 (day 9 + 5000)],
       Badge_docs := [firstStep, weekWarrior]\<rparr>"

text \<open>
  A week for the six-day member: the workout of day 10 is written to the ledger, the streak
  update brings the streak to 7, the badge evaluation fails at its first notification, a
  credit follows, the evaluation is repeated, and three days later the sweep finds the
  streak broken.
\<close>

definition weekOps :: "(operation \<times> bool list) list" where
  "weekOps =
     [(LedgerAppend (workoutAt 1 (day 10 + 1000)), []),
      (QualifyingEvent 1 (day 10 + 3600000), []),
      (Evaluate 1 (day 10 + 3600000), [False, False, False, True]),
      (Credit 1 15 ''Completed workout day'' (day 10 + 3600000), []),
      (Evaluate 1 (day 10 + 3600000), []),
      (DailySweep 1 (day 13), [])]"

section \<open>Basic facts about actions\<close>

lemma wpI: "m w = (r, w') \<Longrightarrow> wp m Q w \<Longrightarrow> Q r w'"
  by (simp add: wp_def)

lemma wp_resolve: "wp (resolve a) Q w = Q (Inr a) w"
  by (simp add: wp_def resolve_def)

lemma wp_throw: "wp (throw e) Q w = Q (Inl e) w"
  by (simp add: wp_def throw_def)

lemma wp_io:
  "wp (io f) Q (d, fs) =
     (if failing fs then Q (Inl StoreError) (d, tl fs)
      else Q (Inr (fst (f d))) (snd (f d), tl fs))"
  by (auto simp: wp_def io_def failing_def split: list.splits bool.splits prod.splits)

lemma wp_andThen:
  "wp (andThen m f) Q w =
     wp m (\<lambda>r w'. case r of Inl e \<Rightarrow> Q (Inl e) w' | Inr a \<Rightarrow> wp (f a) Q w') w"
  by (auto simp: wp_def andThen_def split: prod.splits sum.splits)

lemma wp_catch:
  "wp (catch m h) Q w =
     wp m (\<lambda>r w'. case r of Inl e \<Rightarrow> wp (h e) Q w' | Inr a \<Rightarrow> Q (Inr a) w') w"
  by (auto simp: wp_def catch_def split: prod.splits sum.splits)

lemma wp_mono: "wp m Q w \<Longrightarrow> (\<And>r w'. Q r w' \<Longrightarrow> Q' r w') \<Longrightarrow> wp m Q' w"
  by (auto simp: wp_def split: prod.splits)

lemmas wp_simps = wp_resolve wp_throw wp_io wp_andThen wp_catch

lemma failing_nil [simp]: "\<not> failing []"
  by (simp add: failing_def)

lemma wp_resolves:
  "wp m (\<lambda>r w'. (\<exists>a. r = Inr a) \<and> snd w' = []) w \<Longrightarrow> \<exists>a d'. m w = (Inr a, (d', []))"
  by (cases "m w") (auto simp: wp_def)

text \<open>Unfolding the primitives evaluates a run on concrete data.\<close>

lemmas run_defs = andThen_def io_def resolve_def throw_def catch_def findById_def save_def
  todayWorkout_def yesterdayWorkout_def findOneActivity_def workoutOn_def loggedToday_def
  utc_def endOfDay_def DAY_def bumpStreak_def bumpLongest_def
  createNotification_def createActivity_def milestones_def majorMilestones_def bonusPoints_def
  milestoneNotification_def milestoneActivity_def

lemmas example_defs = workoutAt_def member_def emptyDb_def day_def sixDayDb_def gapDb_def

section \<open>Streak service: the update on a qualifying event\<close>

lemma major_in_milestones: "n \<in> set majorMilestones \<Longrightarrow> n \<in> set milestones"
  by (auto simp: majorMilestones_def milestones_def)

lemma find_id: "find (\<lambda>u. u_id u = userId) us = Some user \<Longrightarrow> u_id user = userId"
  by (induction us) (auto split: if_splits)

lemma findById_snd [simp]: "snd (findById userId d) = d"
  by (simp add: findById_def)

lemma todayWorkout_snd [simp]: "snd (todayWorkout z userId now d) = d"
  by (simp add: todayWorkout_def findOneActivity_def)

lemma yesterdayWorkout_snd [simp]: "snd (yesterdayWorkout z userId now d) = d"
  by (simp add: yesterdayWorkout_def findOneActivity_def Let_def)

lemma findById_id: "fst (findById userId d) = Some user \<Longrightarrow> u_id user = userId"
  by (auto simp: findById_def dest: find_id)

lemma wp_updateWorkoutStreak:
  assumes "fst (findById userId d) = Some user"
  shows "wp (updateWorkoutStreak z userId now)
     (\<lambda>r (d', fs').
       (if loggedToday z user (startOfDay z now) \<or> fst (todayWorkout z userId now d) = None
        then d' = d \<and> (case r of Inl e \<Rightarrow> True | Inr n \<Rightarrow> n = currentWorkoutStreak user)
        else (case r of Inl e \<Rightarrow> True | Inr n \<Rightarrow> d' = updateEffect z user now d
           \<and> n = currentWorkoutStreak
                 (streakUpdate user (fst (yesterdayWorkout z userId now d) \<noteq> None) now))))
     (d, fs)"
  unfolding updateWorkoutStreak_def checkStreakMilestones_def
  by (simp add: wp_simps assms updateEffect_def streakUpdate_def findById_id[OF assms]
         milestoneEffect_def milestoneBonus_def major_in_milestones createNotification_def
         createActivity_def Let_def
         del: not_None_eq)

lemma updateWorkoutStreak_no_faults:
  assumes "fst (findById userId d) = Some user"
  shows "\<exists>n d'. updateWorkoutStreak z userId now (d, []) = (Inr n, (d', []))"
  by (rule wp_resolves)
     (simp add: updateWorkoutStreak_def checkStreakMilestones_def wp_simps assms)

lemma find_save:
  "find (\<lambda>u. u_id u = userId) us = Some user \<Longrightarrow> u_id user' = userId \<Longrightarrow>
   find (\<lambda>u. u_id u = userId) (map (\<lambda>v. if u_id v = u_id user' then user' else v) us)
     = Some user'"
  by (induction us) (auto split: if_splits)

lemma findById_save:
  "fst (findById userId d) = Some user \<Longrightarrow> u_id user' = userId \<Longrightarrow>
   fst (findById userId (snd (save user' d))) = Some user'"
  using find_save[of userId "User_docs d" user user'] by (simp add: findById_def save_def)

lemma milestoneEffect_users [simp]: "User_docs (milestoneEffect u now d) = User_docs d"
  by (simp add: milestoneEffect_def)

lemma findById_updateEffect:
  assumes "fst (findById userId d) = Some user"
  shows "fst (findById userId (updateEffect z user now d)) =
     Some ((streakUpdate user (fst (yesterdayWorkout z userId now d) \<noteq> None) now)
        \<lparr>totalPoints := totalPoints user + milestoneBonus
            (currentWorkoutStreak
               (streakUpdate user (fst (yesterdayWorkout z userId now d) \<noteq> None) now))\<rparr>)"
proof -
  have id: "u_id user = userId" by (rule findById_id[OF assms])
  have "fst (findById userId (milestoneEffect u now d)) = Some user" for u
    using assms by (simp add: findById_def)
  then show ?thesis
    unfolding updateEffect_def Let_def
    by (subst findById_save[where user = user])
       (simp_all add: id streakUpdate_def bumpLongest_def bumpStreak_def)
qed

text \<open>
  C1 (as the code has it). For a user with a progress record whose \<open>lastWorkoutDate\<close> is not
  already today, and with a \<open>workout_completed\<close> ledger entry dated today, an update that
  completes sets \<open>currentWorkoutStreak\<close> to its old value plus 1 when the ledger holds a
  \<open>workout_completed\<close> entry dated yesterday or \<open>lastWorkoutDate\<close> is absent, and to exactly 1
  otherwise; it then sets \<open>longestWorkoutStreak\<close> to the maximum of its old value and the new
  streak, sets \<open>lastWorkoutDate\<close> to the current time (a time of today) and returns the new
  streak. The test for continuing the streak reads the ledger, not \<open>lastWorkoutDate\<close>.
\<close>

theorem updateWorkoutStreak_transition:
  assumes "fst (findById userId d) = Some user"
    and "\<not> loggedToday z user (startOfDay z now)"
    and "fst (todayWorkout z userId now d) \<noteq> None"
    and "updateWorkoutStreak z userId now (d, fs) = (Inr n, (d', fs'))"
  shows "\<exists>user'. fst (findById userId d') = Some user'
      \<and> currentWorkoutStreak user' =
          (if fst (yesterdayWorkout z userId now d) \<noteq> None \<or> lastWorkoutDate user = None
           then currentWorkoutStreak user + 1 else 1)
      \<and> longestWorkoutStreak user' = max (longestWorkoutStreak user) (currentWorkoutStreak user')
      \<and> lastWorkoutDate user' = Some now
      \<and> n = currentWorkoutStreak user'"
proof -
  from wpI[OF assms(4) wp_updateWorkoutStreak[OF assms(1)]] assms(2,3)
  have d': "d' = updateEffect z user now d"
    and n: "n = currentWorkoutStreak
                  (streakUpdate user (fst (yesterdayWorkout z userId now d) \<noteq> None) now)"
    by simp_all
  show ?thesis
    unfolding d' n findById_updateEffect[OF assms(1)]
    by (simp add: streakUpdate_def bumpLongest_def bumpStreak_def del: not_None_eq)
qed

theorem updateWorkoutStreak_transition_witness:
  "fst (findById 1 sixDayDb) = Some (member 1 6 6 90 (Some (day 9 + 5000)))
   \<and> \<not> loggedToday utc (member 1 6 6 90 (Some (day 9 + 5000))) (startOfDay utc (day 10 + 3600000))
   \<and> fst (todayWorkout utc 1 (day 10 + 3600000) sixDayDb) \<noteq> None
   \<and> fst (updateWorkoutStreak utc 1 (day 10 + 3600000) (sixDayDb, [])) = Inr 7
   \<and> (\<exists>user'. fst (findById 1
                  (fst (snd (updateWorkoutStreak utc 1 (day 10 + 3600000) (sixDayDb, [])))))
                = Some user'
      \<and> currentWorkoutStreak user' = 7 \<and> longestWorkoutStreak user' = 7
      \<and> lastWorkoutDate user' = Some (day 10 + 3600000))"
proof -
  let ?u = "member 1 6 6 90 (Some (day 9 + 5000))"
  let ?now = "day 10 + 3600000"
  have a: "fst (findById 1 sixDayDb) = Some ?u"
    by (simp add: run_defs example_defs)
  have b: "\<not> loggedToday utc ?u (startOfDay utc ?now)"
    by (simp add: run_defs example_defs)
  have c: "fst (todayWorkout utc 1 ?now sixDayDb) \<noteq> None"
    by (simp add: run_defs example_defs)
  obtain n d' fs' where r: "updateWorkoutStreak utc 1 ?now (sixDayDb, []) = (Inr n, (d', fs'))"
    using updateWorkoutStreak_no_faults[OF a] by blast
  have y: "fst (yesterdayWorkout utc 1 ?now sixDayDb) \<noteq> None"
    by (simp add: run_defs example_defs)
  from updateWorkoutStreak_transition[OF a b c r] y
  show ?thesis using a b c r by (auto simp: member_def)
qed

text \<open>
  C1 as stated fails: the member's \<open>lastWorkoutDate\<close> (day 7) is older than yesterday
  (day 9), so the streak should restart at 1; the ledger holds a workout for day 9, and the
  update continues the streak from 5 to 6.
\<close>

theorem updateWorkoutStreak_gap_counterexample:
  "fst (findById 1 gapDb) = Some (member 1 5 5 75 (Some (day 7 + 5000)))
   \<and> startOfDay utc (day 7 + 5000) < startOfDay utc (subDays utc (startOfDay utc (day 10 + 3600000)) 1)
   \<and> fst (todayWorkout utc 1 (day 10 + 3600000) gapDb) \<noteq> None
   \<and> fst (updateWorkoutStreak utc 1 (day 10 + 3600000) (gapDb, [])) = Inr 6
   \<and> map currentWorkoutStreak
        (User_docs (fst (snd (updateWorkoutStreak utc 1 (day 10 + 3600000) (gapDb, []))))) = [6]"
  by (simp add: updateWorkoutStreak_def checkStreakMilestones_def run_defs example_defs)

lemma updateWorkoutStreak_unknown:
  assumes "fst (findById userId d) = None"
  shows "wp (updateWorkoutStreak z userId now) (\<lambda>r w'. \<exists>e. r = Inl e) (d, fs)"
  unfolding updateWorkoutStreak_def
  by (simp add: wp_simps assms)

lemma updateWorkoutStreak_found:
  assumes "updateWorkoutStreak z userId now (d, fs) = (Inr n, w')"
  shows "\<exists>user. fst (findById userId d) = Some user"
proof (cases "fst (findById userId d)")
  case None
  from wpI[OF assms updateWorkoutStreak_unknown[OF None]] show ?thesis by simp
qed simp

section \<open>Streak service: milestones\<close>

text \<open>
  C5. Milestones. When an update that completes changes the streak (the user has not logged
  today and the ledger holds a workout for today), with \<open>n\<close> the new streak: a milestone
  notification is appended exactly when \<open>n\<close> is one of 3, 7, 14, 21, 30, 50, 100, 365; exactly
  one ledger entry is appended, carrying the bonus, exactly when \<open>n\<close> is 7, 30 or 100; and
  the user's points grow by 50, 200 or 500 for 7, 30 or 100 and by nothing otherwise. An
  update that does not change the streak writes nothing.
\<close>

theorem streak_milestones:
  assumes "fst (findById userId d) = Some user"
    and "updateWorkoutStreak z userId now (d, fs) = (Inr n, (d', fs'))"
  shows "if loggedToday z user (startOfDay z now) \<or> fst (todayWorkout z userId now d) = None
         then d' = d
         else Notification_docs d' = Notification_docs d @
                (if n \<in> {3, 7, 14, 21, 30, 50, 100, 365}
                 then [\<lparr>n_userId = userId, n_type = ''streak_milestone'',
                         n_notice = StreakDays n, n_relatedId = None, n_priority = ''high''\<rparr>]
                 else [])
            \<and> ActivityLog_docs d' = ActivityLog_docs d @
                (if n \<in> {7, 30, 100}
                 then [\<lparr>a_userId = userId, activityType = ''streak_milestone'',
                         a_description = ReachedStreak n, a_relatedId = None, postType = None,
                         pointsEarned = (if n = 7 then 50 else if n = 30 then 200 else 500),
                         createdAt = now\<rparr>]
                 else [])
            \<and> (\<exists>user'. fst (findById userId d') = Some user'
                  \<and> currentWorkoutStreak user' = n
                  \<and> totalPoints user' = totalPoints user +
                       (if n = 7 then 50 else if n = 30 then 200 else if n = 100 then 500 else 0))"
proof (cases "loggedToday z user (startOfDay z now) \<or> fst (todayWorkout z userId now d) = None")
  case True
  with wpI[OF assms(2) wp_updateWorkoutStreak[OF assms(1)]] show ?thesis by auto
next
  case False
  let ?u1 = "streakUpdate user (fst (yesterdayWorkout z userId now d) \<noteq> None) now"
  from False wpI[OF assms(2) wp_updateWorkoutStreak[OF assms(1)]]
  have d': "d' = updateEffect z user now d" and n: "n = currentWorkoutStreak ?u1"
    by auto
  have id: "u_id ?u1 = userId"
    using findById_id[OF assms(1)] by (simp add: streakUpdate_def bumpLongest_def bumpStreak_def)
  have nts: "Notification_docs d' = Notification_docs d @
        (if n \<in> set milestones then [milestoneNotification ?u1] else [])"
    and logs: "ActivityLog_docs d' = ActivityLog_docs d @
        (if n \<in> set majorMilestones then [milestoneActivity ?u1 now] else [])"
    unfolding d' n by (simp_all add: updateEffect_def Let_def save_def milestoneEffect_def findById_id[OF assms(1)])
  have u: "fst (findById userId d') = Some (?u1\<lparr>totalPoints := totalPoints user + milestoneBonus n\<rparr>)"
    unfolding d' n by (rule findById_updateEffect[OF assms(1)])
  have 1: "Notification_docs d' = Notification_docs d @
                (if n \<in> {3, 7, 14, 21, 30, 50, 100, 365}
                 then [\<lparr>n_userId = userId, n_type = ''streak_milestone'',
                         n_notice = StreakDays n, n_relatedId = None, n_priority = ''high''\<rparr>]
                 else [])"
    unfolding nts using n id by (simp add: milestones_def milestoneNotification_def)
  have 2: "ActivityLog_docs d' = ActivityLog_docs d @
                (if n \<in> {7, 30, 100}
                 then [\<lparr>a_userId = userId, activityType = ''streak_milestone'',
                         a_description = ReachedStreak n, a_relatedId = None, postType = None,
                         pointsEarned = (if n = 7 then 50 else if n = 30 then 200 else 500),
                         createdAt = now\<rparr>]
                 else [])"
    unfolding logs using n id by (simp add: majorMilestones_def milestoneActivity_def bonusPoints_def)
  have 3: "milestoneBonus n = (if n = 7 then 50 else if n = 30 then 200 else if n = 100 then 500 else 0)"
    by (simp add: milestoneBonus_def majorMilestones_def bonusPoints_def)
  have 4: "\<exists>user'. fst (findById userId d') = Some user'
                  \<and> currentWorkoutStreak user' = n
                  \<and> totalPoints user' = totalPoints user +
                       (if n = 7 then 50 else if n = 30 then 200 else if n = 100 then 500 else 0)"
    unfolding u 3[symmetric] by (simp add: n)
  show ?thesis
    by (subst if_not_P[OF False]) (intro conjI 1 2 4)
qed

lemma sixDay_run:
  "updateWorkoutStreak utc 1 (day 10 + 3600000) (sixDayDb, []) = (Inr 7, (sixDayAfter, []))"
  by (simp add: updateWorkoutStreak_def checkStreakMilestones_def run_defs example_defs sixDayAfter_def)

theorem streak_milestones_witness:
  "fst (findById 1 sixDayDb) = Some (member 1 6 6 90 (Some (day 9 + 5000)))
   \<and> updateWorkoutStreak utc 1 (day 10 + 3600000) (sixDayDb, []) = (Inr 7, (sixDayAfter, []))
   \<and> length (Notification_docs sixDayAfter) = length (Notification_docs sixDayDb) + 1
   \<and> length (ActivityLog_docs sixDayAfter) = length (ActivityLog_docs sixDayDb) + 1
   \<and> (\<exists>user'. fst (findById 1 sixDayAfter) = Some user' \<and> totalPoints user' = 90 + 50)"
proof -
  let ?u = "member 1 6 6 90 (Some (day 9 + 5000))"
  let ?now = "day 10 + 3600000"
  have a: "fst (findById 1 sixDayDb) = Some ?u"
    by (simp add: run_defs example_defs)
  have b: "\<not> (loggedToday utc ?u (startOfDay utc ?now) \<or> fst (todayWorkout utc 1 ?now sixDayDb) = None)"
    by (simp add: run_defs example_defs)
  from streak_milestones[OF a sixDay_run] b
  show ?thesis using a sixDay_run by (auto simp: member_def)
qed

section \<open>Streak service: a second update on the same day\<close>

lemma same_day_queries:
  assumes "startOfDay z now' = startOfDay z now"
  shows "todayWorkout z userId now' d = todayWorkout z userId now d"
    and "loggedToday z user (startOfDay z now') = loggedToday z user (startOfDay z now)"
  using assms by (simp_all add: todayWorkout_def endOfDay_def)

lemma loggedToday_streakUpdate:
  "loggedToday z ((streakUpdate user yw now)\<lparr>totalPoints := p\<rparr>) (startOfDay z now)"
  by (simp add: loggedToday_def streakUpdate_def)

lemma currentWorkoutStreak_points [simp]:
  "currentWorkoutStreak (u\<lparr>totalPoints := p\<rparr>) = currentWorkoutStreak u"
  by simp

lemma updateWorkoutStreak_after:
  assumes "updateWorkoutStreak z userId now (d, fs) = (Inr n, (d1, fs1))"
  shows "\<exists>u. fst (findById userId d1) = Some u \<and> currentWorkoutStreak u = n
     \<and> (loggedToday z u (startOfDay z now) \<or> fst (todayWorkout z userId now d1) = None)"
proof -
  obtain user where f: "fst (findById userId d) = Some user"
    using updateWorkoutStreak_found[OF assms] by blast
  note post = wpI[OF assms wp_updateWorkoutStreak[OF f]]
  show ?thesis
  proof (cases "loggedToday z user (startOfDay z now) \<or> fst (todayWorkout z userId now d) = None")
    case True
    with post f show ?thesis by auto
  next
    case False
    with post have d1: "d1 = updateEffect z user now d"
      and n: "n = currentWorkoutStreak
                  (streakUpdate user (fst (yesterdayWorkout z userId now d) \<noteq> None) now)"
      by auto
    show ?thesis
      unfolding d1 n findById_updateEffect[OF f]
      by (simp add: loggedToday_streakUpdate del: not_None_eq)
  qed
qed

text \<open>
  C2. Same-day idempotence. After an update that completed, a second update for the same
  user at any time of the same calendar day leaves the whole database as it is, whatever
  storage faults occur (so the streak counters, the points, the last workout date and the
  ledger are unchanged); when no storage call rejects it returns the current streak, which
  is the value the first call returned.
\<close>

theorem same_day_second_call:
  assumes "updateWorkoutStreak z userId now (d, fs) = (Inr n, (d1, fs1))"
    and "startOfDay z now' = startOfDay z now"
  shows "fst (snd (updateWorkoutStreak z userId now' (d1, fs2))) = d1
     \<and> updateWorkoutStreak z userId now' (d1, []) = (Inr n, (d1, []))
     \<and> (\<exists>u. fst (findById userId d1) = Some u \<and> currentWorkoutStreak u = n)"
proof -
  from updateWorkoutStreak_after[OF assms(1)]
  obtain u where f: "fst (findById userId d1) = Some u" and n: "currentWorkoutStreak u = n"
    and idle: "loggedToday z u (startOfDay z now) \<or> fst (todayWorkout z userId now d1) = None"
    by blast
  from idle have idle':
    "loggedToday z u (startOfDay z now') \<or> fst (todayWorkout z userId now' d1) = None"
    by (simp add: same_day_queries[OF assms(2)])
  have any: "fst (snd (updateWorkoutStreak z userId now' (d1, fs2))) = d1
       \<and> (\<forall>k. fst (updateWorkoutStreak z userId now' (d1, fs2)) = Inr k \<longrightarrow> k = n)" for fs2
    using wp_updateWorkoutStreak[OF f, of z now' fs2] idle' n
    by (auto simp: wp_def split: prod.splits sum.splits)
  obtain k d2 where r: "updateWorkoutStreak z userId now' (d1, []) = (Inr k, (d2, []))"
    using updateWorkoutStreak_no_faults[OF f] by blast
  with any[of "[]"] have "k = n" "d2 = d1" by auto
  with r any[of fs2] f n show ?thesis by auto
qed

theorem same_day_second_call_witness:
  "updateWorkoutStreak utc 1 (day 10 + 3600000) (sixDayDb, []) = (Inr 7, (sixDayAfter, []))
   \<and> startOfDay utc (day 10 + 7200000) = startOfDay utc (day 10 + 3600000)
   \<and> updateWorkoutStreak utc 1 (day 10 + 7200000) (sixDayAfter, []) = (Inr 7, (sixDayAfter, []))"
proof -
  have s: "startOfDay utc (day 10 + 7200000) = startOfDay utc (day 10 + 3600000)"
    by (simp add: utc_def day_def DAY_def)
  from same_day_second_call[OF sixDay_run s] sixDay_run s show ?thesis by simp
qed

section \<open>Streak service: the daily sweep\<close>










section \<open>Gamification service: crediting points\<close>

lemma wp_awardPoints:
  "wp (awardPoints userId points reason now)
     (\<lambda>r (d', fs'). case r of
        Inr newTotal \<Rightarrow>
          (\<exists>user. fst (findById userId d) = Some user
             \<and> newTotal = totalPoints user + points
             \<and> User_docs d' = User_docs (snd (save (user\<lparr>totalPoints := newTotal\<rparr>) d))
             \<and> ActivityLog_docs d' =
                 ActivityLog_docs d @ [pointsActivity userId points reason now])
      | Inl e \<Rightarrow>
          ActivityLog_docs d' = ActivityLog_docs d
          \<and> (User_docs d' = User_docs d
              \<or> (e = StoreError
                  \<and> (\<exists>user. fst (findById userId d) = Some user
                        \<and> User_docs d' =
                            User_docs (snd (save (user\<lparr>totalPoints := totalPoints user + points\<rparr>) d))))))
     (d, fs)"
  unfolding awardPoints_def
  by (cases "fst (findById userId d)")
     (simp_all add: wp_simps save_def createActivity_def)

text \<open>
  C8 (as the code has it). \<^verbatim>\<open>awardPoints\<close> saves the user first and writes the ledger
  entry second, with nothing to undo the save. When the call resolves, both the credit and
  the ledger entry are in place. When it raises, the ledger is unchanged, and the points are
  either not credited, or credited without a ledger entry (the ledger write rejected after
  the save). A ledger entry without the credit never occurs.
\<close>

theorem awardPoints_outcomes:
  assumes "awardPoints userId points reason now (d, fs) = (r, (d', fs'))"
  shows "case r of
        Inr newTotal \<Rightarrow>
          (\<exists>user. fst (findById userId d) = Some user
             \<and> newTotal = totalPoints user + points
             \<and> User_docs d' = User_docs (snd (save (user\<lparr>totalPoints := newTotal\<rparr>) d))
             \<and> ActivityLog_docs d' =
                 ActivityLog_docs d @ [pointsActivity userId points reason now])
      | Inl e \<Rightarrow>
          ActivityLog_docs d' = ActivityLog_docs d
          \<and> (User_docs d' = User_docs d
              \<or> (e = StoreError
                  \<and> (\<exists>user. fst (findById userId d) = Some user
                        \<and> User_docs d' =
                            User_docs (snd (save (user\<lparr>totalPoints := totalPoints user + points\<rparr>) d)))))"
  using wpI[OF assms wp_awardPoints] by simp

lemma newcomer_ledger_rejected:
  "awardPoints 1 5 ''Logged biometric data'' (day 10) (newcomerDb, [False, False, True]) =
     (Inl StoreError, (newcomerDb\<lparr>User_docs := [member 1 0 0 5 None]\<rparr>, []))"
  by (simp add: awardPoints_def run_defs newcomerDb_def emptyDb_def member_def)

theorem awardPoints_outcomes_witness:
  "awardPoints 1 5 ''Logged biometric data'' (day 10) (newcomerDb, [False, False, True]) =
     (Inl StoreError, (newcomerDb\<lparr>User_docs := [member 1 0 0 5 None]\<rparr>, []))
   \<and> ActivityLog_docs (newcomerDb\<lparr>User_docs := [member 1 0 0 5 None]\<rparr>) = ActivityLog_docs newcomerDb
   \<and> User_docs (newcomerDb\<lparr>User_docs := [member 1 0 0 5 None]\<rparr>) \<noteq> User_docs newcomerDb"
  using awardPoints_outcomes[OF newcomer_ledger_rejected] newcomer_ledger_rejected
  by (simp add: newcomerDb_def emptyDb_def member_def)

text \<open>
  C8 as stated fails: the lookup and the save resolve, the ledger write rejects; the call
  raises, the member's points have gone from 0 to 5, and the ledger is still empty.
\<close>

theorem awardPoints_partial_counterexample:
  "fst (awardPoints 1 5 ''Logged biometric data'' (day 10) (newcomerDb, [False, False, True]))
     = Inl StoreError
   \<and> map totalPoints (User_docs newcomerDb) = [0]
   \<and> map totalPoints (User_docs (fst (snd
        (awardPoints 1 5 ''Logged biometric data'' (day 10) (newcomerDb, [False, False, True])))))
     = [5]
   \<and> ActivityLog_docs (fst (snd
        (awardPoints 1 5 ''Logged biometric data'' (day 10) (newcomerDb, [False, False, True]))))
     = []"
  by (simp add: awardPoints_def run_defs newcomerDb_def emptyDb_def member_def)

section \<open>Gamification service: rank and leaderboard\<close>

lemma countUsers_snd [simp]: "snd (countUsers q d) = d"
  by (simp add: countUsers_def)

lemma getUserRank_run:
  assumes "fst (findById userId d) = Some user"
  shows "getUserRank userId metric (d, []) =
     (Inr (1 + int (length (filter
        (\<lambda>u. active u \<and>
           (if metric = ''currentWorkoutStreak''
            then currentWorkoutStreak user < currentWorkoutStreak u
            else totalPoints user < totalPoints u)) (User_docs d)))), (d, []))"
proof -
  have fb: "findById userId d = (Some user, d)"
    using assms by (simp add: findById_def)
  show ?thesis
    unfolding getUserRank_def
    by (simp add: andThen_def io_def resolve_def fb countUsers_def)
qed

text \<open>
  For the metrics \<open>totalPoints\<close> and \<open>currentWorkoutStreak\<close> the rank is one more than the
  number of active users strictly above this user on that metric.
\<close>

lemma getUserRank_counts:
  assumes "fst (findById userId d) = Some user"
    and "metric = ''totalPoints'' \<or> metric = ''currentWorkoutStreak''"
  shows "getUserRank userId metric (d, []) =
     (Inr (1 + int (length (filter
        (\<lambda>u. active u \<and> sortCriteria metric user < sortCriteria metric u) (User_docs d)))),
      (d, []))"
  using assms(2) getUserRank_run[OF assms(1), of metric]
  by (auto simp: sortCriteria_def)

text \<open>
  C7 fails for the metric \<open>longestWorkoutStreak\<close>: \<^verbatim>\<open>getUserRank\<close> has no case for it and
  falls through to the default, which counts by \<open>totalPoints\<close>. Member 1 has longest streak 1
  and member 2 has longest streak 10, so the rank of member 1 by longest streak is 2; the
  call returns 1. \<^verbatim>\<open>getLeaderboard\<close> does sort by \<open>longestWorkoutStreak\<close> and puts member 2
  first.
\<close>

theorem getUserRank_longestStreak_by_points:
  "fst (getUserRank 1 ''longestWorkoutStreak'' (rivalsDb, [])) = Inr 1
   \<and> 1 + int (length (filter
        (\<lambda>u. active u \<and> longestWorkoutStreak (member 1 1 1 100 None) < longestWorkoutStreak u)
        (User_docs rivalsDb))) = 2
   \<and> map e_userId (projr (fst (getLeaderboard (\<lambda>key. sort_key (\<lambda>u. - key u)) 10
        ''longestWorkoutStreak'' (rivalsDb, [])))) = [2, 1]"
  by (simp add: getUserRank_def getLeaderboard_def findActiveSorted_def sortCriteria_def
        toEntry_def enumerate_eq_zip active_def countUsers_def
        run_defs rivalsDb_def emptyDb_def member_def)

lemma descending_keys_unique:
  assumes "mset xs = mset ys"
    and "sorted (rev (map f xs))" and "sorted (rev (map f ys))"
  shows "map f xs = map f (ys :: 'a list)"
proof -
  have m: "mset (rev (map f xs)) = mset (rev (map f ys))"
    using arg_cong[OF assms(1), of "image_mset f"] by simp
  have "sort (rev (map f ys)) = rev (map f xs)"
    by (rule properties_for_sort[OF m assms(2)])
  moreover have "sort (rev (map f ys)) = rev (map f ys)"
    by (rule properties_for_sort[OF refl assms(3)])
  ultimately show ?thesis by simp
qed

lemma entryMetric_toEntry:
  "entryMetric metric (toEntry (i, u)) = sortCriteria metric u"
  by (simp add: entryMetric_def toEntry_def sortCriteria_def)

lemma map_entryMetric:
  "map (entryMetric metric) (map toEntry (enumerate n xs)) = map (sortCriteria metric) xs"
  by (induction xs arbitrary: n) (simp_all add: entryMetric_toEntry)

lemma map_rank:
  "map rank (map toEntry (enumerate n xs)) = map (\<lambda>i. int i + 1) [n ..< n + length xs]"
  by (induction xs arbitrary: n) (simp_all add: toEntry_def upt_rec)

lemma getLeaderboard_Inr:
  assumes "getLeaderboard srt limit metric (d, fs) = (Inr l, w)"
  shows "l = map toEntry (enumerate 0
           (fst (findActiveSorted srt (sortCriteria metric) limit d)))"
  using assms unfolding getLeaderboard_def
  by (auto simp: andThen_def io_def resolve_def split: list.splits bool.splits prod.splits)

lemma getUserRank_tie:
  assumes "fst (findById a d) = Some ua" and "fst (findById b d) = Some ub"
    and "totalPoints ua = totalPoints ub"
  shows "getUserRank a ''totalPoints'' (d, []) = getUserRank b ''totalPoints'' (d, [])"
  by (simp add: getUserRank_run[OF assms(1)] getUserRank_run[OF assms(2)] assms(3))

text \<open>
  C9 (as the code has it). The leaderboard query sorts on the metric alone. Any two boards
  that the store may return for the same data, limit and metric have the same ranks
  \<open>1..k\<close> and the same metric value at every position, and the values descend; which of
  two users with equal values comes first is left to the store. \<^verbatim>\<open>getUserRank\<close> counts, so it
  gives two users with equal points the same rank.
\<close>

theorem leaderboard_determined_up_to_ties:
  assumes "sortsDescending srt1 (sortCriteria metric) (filter active (User_docs d))"
    and "sortsDescending srt2 (sortCriteria metric) (filter active (User_docs d))"
    and "getLeaderboard srt1 limit metric (d, fs1) = (Inr l1, w1)"
    and "getLeaderboard srt2 limit metric (d, fs2) = (Inr l2, w2)"
  shows "map rank l1 = map rank l2
     \<and> map rank l1 = map (\<lambda>i. int i + 1) [0 ..< length l1]
     \<and> map (entryMetric metric) l1 = map (entryMetric metric) l2
     \<and> sorted (rev (map (entryMetric metric) l1))
     \<and> (\<forall>a b ua ub. fst (findById a d) = Some ua \<and> fst (findById b d) = Some ub
            \<and> totalPoints ua = totalPoints ub
          \<longrightarrow> getUserRank a ''totalPoints'' (d, []) = getUserRank b ''totalPoints'' (d, []))"
proof -
  let ?key = "sortCriteria metric"
  let ?docs = "filter active (User_docs d)"
  let ?lim = "\<lambda>xs. if limit = 0 then xs else take limit xs"
  have l1: "l1 = map toEntry (enumerate 0 (?lim (srt1 ?key ?docs)))"
    using getLeaderboard_Inr[OF assms(3)] by (simp add: findActiveSorted_def Let_def)
  have l2: "l2 = map toEntry (enumerate 0 (?lim (srt2 ?key ?docs)))"
    using getLeaderboard_Inr[OF assms(4)] by (simp add: findActiveSorted_def Let_def)
  have ms: "mset (srt1 ?key ?docs) = mset (srt2 ?key ?docs)"
    using assms(1,2) by (simp add: sortsDescending_def)
  have s1: "sorted (rev (map ?key (srt1 ?key ?docs)))"
    and s2: "sorted (rev (map ?key (srt2 ?key ?docs)))"
    using assms(1,2) by (simp_all add: sortsDescending_def)
  have keys: "map ?key (srt1 ?key ?docs) = map ?key (srt2 ?key ?docs)"
    by (rule descending_keys_unique[OF ms s1 s2])
  then have len: "length (srt1 ?key ?docs) = length (srt2 ?key ?docs)"
    by (metis length_map)
  have klim: "map ?key (?lim (srt1 ?key ?docs)) = map ?key (?lim (srt2 ?key ?docs))"
    using keys by (simp add: take_map[symmetric] del: take_map)
  have a: "map rank l1 = map rank l2"
    unfolding l1 l2 map_rank using len by simp
  have b: "map rank l1 = map (\<lambda>i. int i + 1) [0 ..< length l1]"
    unfolding l1 map_rank by simp
  have c: "map (entryMetric metric) l1 = map (entryMetric metric) l2"
    unfolding l1 l2 map_entryMetric by (rule klim)
  have "sorted (rev (map ?key (?lim (srt1 ?key ?docs))))"
  proof (cases "limit = 0")
    case True
    then show ?thesis using s1 by simp
  next
    case False
    have "sorted_wrt (\<ge>) (map ?key (srt1 ?key ?docs))"
      using s1 by (simp add: sorted_wrt_rev)
    then have "sorted_wrt (\<ge>) (take limit (map ?key (srt1 ?key ?docs)))"
      by (rule sorted_wrt_take)
    then show ?thesis using False by (simp add: sorted_wrt_rev take_map)
  qed
  then have e: "sorted (rev (map (entryMetric metric) l1))"
    unfolding l1 map_entryMetric .
  show ?thesis using a b c e getUserRank_tie by blast
qed

lemma tie_stable:
  "getLeaderboard stableDescending 10 ''totalPoints'' (tieDb, []) =
     (Inr [boardEntry 1 1 50 3 3, boardEntry 2 2 50 4 4], (tieDb, []))"
  by (simp add: getLeaderboard_def findActiveSorted_def sortCriteria_def toEntry_def
        enumerate_eq_zip active_def stableDescending_def boardEntry_def
        run_defs tieDb_def emptyDb_def member_def)

lemma tie_reversed:
  "getLeaderboard reversedAscending 10 ''totalPoints'' (tieDb, []) =
     (Inr [boardEntry 1 2 50 4 4, boardEntry 2 1 50 3 3], (tieDb, []))"
  by (simp add: getLeaderboard_def findActiveSorted_def sortCriteria_def toEntry_def
        enumerate_eq_zip active_def reversedAscending_def boardEntry_def
        run_defs tieDb_def emptyDb_def member_def)

lemma tie_sorts:
  "sortsDescending stableDescending (sortCriteria ''totalPoints'') (filter active (User_docs tieDb))"
  "sortsDescending reversedAscending (sortCriteria ''totalPoints'') (filter active (User_docs tieDb))"
  by (simp_all add: sortsDescending_def stableDescending_def reversedAscending_def
        sortCriteria_def active_def tieDb_def emptyDb_def member_def)

theorem leaderboard_determined_up_to_ties_witness:
  "sortsDescending stableDescending (sortCriteria ''totalPoints'') (filter active (User_docs tieDb))
   \<and> sortsDescending reversedAscending (sortCriteria ''totalPoints'') (filter active (User_docs tieDb))
   \<and> getLeaderboard stableDescending 10 ''totalPoints'' (tieDb, []) =
        (Inr [boardEntry 1 1 50 3 3, boardEntry 2 2 50 4 4], (tieDb, []))
   \<and> getLeaderboard reversedAscending 10 ''totalPoints'' (tieDb, []) =
        (Inr [boardEntry 1 2 50 4 4, boardEntry 2 1 50 3 3], (tieDb, []))
   \<and> map (entryMetric ''totalPoints'') [boardEntry 1 1 50 3 3, boardEntry 2 2 50 4 4]
      = map (entryMetric ''totalPoints'') [boardEntry 1 2 50 4 4, boardEntry 2 1 50 3 3]
   \<and> fst (findById 1 tieDb) = Some (member 1 3 3 50 None)
   \<and> fst (findById 2 tieDb) = Some (member 2 4 4 50 None)
   \<and> getUserRank 1 ''totalPoints'' (tieDb, []) = getUserRank 2 ''totalPoints'' (tieDb, [])"
proof -
  have a: "fst (findById 1 tieDb) = Some (member 1 3 3 50 None)"
    and b: "fst (findById 2 tieDb) = Some (member 2 4 4 50 None)"
    by (simp_all add: findById_def tieDb_def emptyDb_def member_def)
  have p: "totalPoints (member 1 3 3 50 None) = totalPoints (member 2 4 4 50 None)"
    by (simp add: member_def)
  from leaderboard_determined_up_to_ties[OF tie_sorts tie_stable tie_reversed] a b p
  have "getUserRank 1 ''totalPoints'' (tieDb, []) = getUserRank 2 ''totalPoints'' (tieDb, [])"
    and "map (entryMetric ''totalPoints'') [boardEntry 1 1 50 3 3, boardEntry 2 2 50 4 4]
      = map (entryMetric ''totalPoints'') [boardEntry 1 2 50 4 4, boardEntry 2 1 50 3 3]"
    by blast+
  then show ?thesis using tie_sorts tie_stable tie_reversed a b by simp
qed

text \<open>
  C9 as stated fails for the leaderboard: two members have 50 points each, both sorting
  routines sort descending on \<open>totalPoints\<close> as the query asks, and the two boards for the
  same data differ in who holds rank 1.
\<close>

theorem leaderboard_tie_counterexample:
  "sortsDescending stableDescending (sortCriteria ''totalPoints'') (filter active (User_docs tieDb))
   \<and> sortsDescending reversedAscending (sortCriteria ''totalPoints'') (filter active (User_docs tieDb))
   \<and> fst (getLeaderboard stableDescending 10 ''totalPoints'' (tieDb, []))
        = Inr [boardEntry 1 1 50 3 3, boardEntry 2 2 50 4 4]
   \<and> fst (getLeaderboard reversedAscending 10 ''totalPoints'' (tieDb, []))
        = Inr [boardEntry 1 2 50 4 4, boardEntry 2 1 50 3 3]
   \<and> boardEntry 1 1 50 3 3 \<noteq> boardEntry 1 2 50 4 4"
  by (simp add: tie_sorts tie_stable tie_reversed boardEntry_def)

section \<open>Gamification service: badge evaluation never raises\<close>

lemmas badge_defs = evaluateBadges_def checkAndAwardBadges_def hasEarned_def
  checkStreakBadge_def checkCountBadge_def checkValueBadge_def checkCustomBadge_def
  reaches_def findActiveBadges_def countActivities_def badgeNotification_def
  badgeActivity_def pushBadge_def firstStep_def weekWarrior_def badgeDb_def sixDayAfter_def

text \<open>
  C10. \<^verbatim>\<open>checkAndAwardBadges\<close> never raises: it always resolves with a list. When anything
  inside its \<^verbatim>\<open>try\<close> block raises (the user lookup, a criterion query, the notification,
  the ledger entry, the save), that list is empty, as it is when no badge was earned;
  otherwise it is the list of the badges earned.
\<close>

theorem checkAndAwardBadges_never_raises:
  "fst (checkAndAwardBadges z userId now w) =
     (case fst (evaluateBadges z userId now w) of
        Inl e \<Rightarrow> Inr []
      | Inr newBadgesEarned \<Rightarrow> Inr newBadgesEarned)
   \<and> (\<exists>newBadgesEarned. fst (checkAndAwardBadges z userId now w) = Inr newBadgesEarned)"
  by (cases "evaluateBadges z userId now w"; cases "fst (evaluateBadges z userId now w)")
     (auto simp: checkAndAwardBadges_def catch_def resolve_def)

lemma badgeDb_run:
  "fst (evaluateBadges utc 1 (day 10 + 3600000) (badgeDb, [])) = Inr [firstStep, weekWarrior]"
  by (simp add: awardLoop.simps badge_defs run_defs example_defs)

lemma badge_rejections:
  "fst (evaluateBadges utc 1 (day 10 + 3600000) (badgeDb, [True])) = Inl StoreError"
  "fst (evaluateBadges utc 1 (day 10 + 3600000) (badgeDb, [False, False, True])) = Inl StoreError"
  "fst (evaluateBadges utc 1 (day 10 + 3600000) (badgeDb, [False, False, False, True]))
     = Inl StoreError"
  "fst (evaluateBadges utc 1 (day 10 + 3600000) (badgeDb, [False, False, False, False, True]))
     = Inl StoreError"
  "fst (evaluateBadges utc 1 (day 10 + 3600000)
          (badgeDb, [False, False, False, False, False, False, False, False, True]))
     = Inl StoreError"
  "fst (evaluateBadges utc 5 (day 10 + 3600000) (badgeDb, [])) = Inl UserNotFound"
  by (simp_all add: awardLoop.simps badge_defs run_defs example_defs)

theorem checkAndAwardBadges_never_raises_witness:
  "fst (evaluateBadges utc 1 (day 10 + 3600000) (badgeDb, [True])) = Inl StoreError
   \<and> fst (checkAndAwardBadges utc 1 (day 10 + 3600000) (badgeDb, [True])) = Inr []
   \<and> fst (checkAndAwardBadges utc 1 (day 10 + 3600000) (badgeDb, [False, False, True])) = Inr []
   \<and> fst (checkAndAwardBadges utc 1 (day 10 + 3600000) (badgeDb, [False, False, False, True]))
       = Inr []
   \<and> fst (checkAndAwardBadges utc 1 (day 10 + 3600000)
             (badgeDb, [False, False, False, False, True])) = Inr []
   \<and> fst (checkAndAwardBadges utc 1 (day 10 + 3600000)
          (badgeDb, [False, False, False, False, False, False, False, False, True])) = Inr []
   \<and> fst (evaluateBadges utc 5 (day 10 + 3600000) (badgeDb, [])) = Inl UserNotFound
   \<and> fst (checkAndAwardBadges utc 5 (day 10 + 3600000) (badgeDb, [])) = Inr []
   \<and> fst (checkAndAwardBadges utc 1 (day 10 + 3600000) (badgeDb, []))
       = Inr [firstStep, weekWarrior]"
  using checkAndAwardBadges_never_raises[of utc 1 "day 10 + 3600000" "(badgeDb, [True])"]
    checkAndAwardBadges_never_raises[of utc 1 "day 10 + 3600000" "(badgeDb, [False, False, True])"]
    checkAndAwardBadges_never_raises[of utc 1 "day 10 + 3600000"
       "(badgeDb, [False, False, False, True])"]
    checkAndAwardBadges_never_raises[of utc 1 "day 10 + 3600000"
       "(badgeDb, [False, False, False, False, True])"]
    checkAndAwardBadges_never_raises[of utc 1 "day 10 + 3600000"
       "(badgeDb, [False, False, False, False, False, False, False, False, True])"]
    checkAndAwardBadges_never_raises[of utc 5 "day 10 + 3600000" "(badgeDb, [])"]
    checkAndAwardBadges_never_raises[of utc 1 "day 10 + 3600000" "(badgeDb, [])"]
    badge_rejections badgeDb_run
  by simp

section \<open>Badge criteria only read\<close>

lemma reads_nil: "reads m \<Longrightarrow> \<exists>r. m (d, []) = (r, (d, []))"
  by (simp add: reads_def)

lemma reads_any:
  "reads m \<Longrightarrow> m (d, fs) = (r, (d', fs')) \<Longrightarrow>
     d' = d \<and> (case r of Inl e \<Rightarrow> True | Inr a \<Rightarrow> fst (m (d, [])) = Inr a)"
proof -
  assume "reads m" and run: "m (d, fs) = (r, (d', fs'))"
  then have "wp m (\<lambda>r (d', fs'). d' = d \<and>
           (case r of Inl e \<Rightarrow> True | Inr a \<Rightarrow> fst (m (d, [])) = Inr a)) (d, fs)"
    by (simp add: reads_def)
  with run show ?thesis by (simp add: wp_def)
qed

lemma reads_resolve: "reads (resolve a)"
  by (simp add: reads_def wp_simps resolve_def)

lemma reads_throw: "reads (throw e)"
  by (simp add: reads_def wp_simps throw_def)

lemma reads_io:
  assumes "\<And>d. snd (f d) = d"
  shows "reads (io f)"
proof -
  have "f d = (x1, x2) \<Longrightarrow> x2 = d" for d x1 x2
    using assms[of d] by simp
  then show ?thesis
    by (auto simp: reads_def wp_simps io_def split: prod.splits)
qed

lemma reads_andThen:
  assumes "reads m" and "\<And>a. reads (f a)"
  shows "reads (andThen m f)"
  unfolding reads_def
proof (intro allI conjI)
  fix d
  obtain r0 where m0: "m (d, []) = (r0, (d, []))" using reads_nil[OF assms(1)] by blast
  show "\<exists>r. andThen m f (d, []) = (r, (d, []))"
  proof (cases r0)
    case (Inl e)
    with m0 show ?thesis by (simp add: andThen_def)
  next
    case (Inr a)
    with m0 reads_nil[OF assms(2), of a d] show ?thesis by (simp add: andThen_def)
  qed
  fix fs
  obtain r d1 fs1 where m: "m (d, fs) = (r, (d1, fs1))" by (cases "m (d, fs)") auto
  note m1 = reads_any[OF assms(1) m]
  show "wp (andThen m f) (\<lambda>r (d', fs'). d' = d \<and>
       (case r of Inl e \<Rightarrow> True | Inr a \<Rightarrow> fst (andThen m f (d, [])) = Inr a)) (d, fs)"
  proof (cases r)
    case (Inl e)
    with m m1 show ?thesis by (simp add: wp_def andThen_def)
  next
    case (Inr a)
    with m1 m0 have m0': "m (d, []) = (Inr a, (d, []))" by simp
    obtain r2 d2 fs2 where f: "f a (d, fs1) = (r2, (d2, fs2))"
      by (cases "f a (d, fs1)") auto
    note f1 = reads_any[OF assms(2) f]
    from m m1 Inr f f1 m0' show ?thesis
      by (simp add: wp_def andThen_def split: sum.splits)
  qed
qed

lemma reads_if: "reads a \<Longrightarrow> reads b \<Longrightarrow> reads (if c then a else b)"
  by simp

lemma reads_option: "reads a \<Longrightarrow> (\<And>x. reads (b x)) \<Longrightarrow> reads (case v of None \<Rightarrow> a | Some x \<Rightarrow> b x)"
  by (cases v) simp_all

lemmas reads_intros = reads_andThen reads_io reads_resolve reads_throw reads_if reads_option

lemma reads_pair:
  "(\<And>x y. reads (b x y)) \<Longrightarrow> reads (case v of (x, y) \<Rightarrow> b x y)"
  by (cases v) simp

lemmas query_snd = findById_def findOneBiometric_def findOneBiometricByDate_def
  countActivities_def countGoals_def findOneGoal_def findOneActivity_def findActiveBadges_def
  countUsers_def

lemma reads_waterLoop: "reads (waterLoop z k userId checkDate streak)"
proof (induction k arbitrary: checkDate streak)
  case 0
  show ?case by (simp add: reads_resolve)
next
  case (Suc k)
  show ?case
    unfolding waterLoop.simps
    by (intro reads_intros Suc) (simp add: query_snd)
qed

lemma reads_checkStreakBadge: "reads (checkStreakBadge z userId badge now)"
  unfolding checkStreakBadge_def calculateWaterStreak_def
  by (intro reads_intros reads_waterLoop) (simp_all add: query_snd)

lemma reads_checkCountBadge: "reads (checkCountBadge userId badge)"
  unfolding checkCountBadge_def
  by (intro reads_intros) (simp_all add: query_snd)

lemma reads_checkValueBadge: "reads (checkValueBadge userId badge)"
  unfolding checkValueBadge_def
  by (intro reads_intros reads_pair) (simp_all add: query_snd)

lemma reads_checkCustomBadge: "reads (checkCustomBadge userId badge)"
  unfolding checkCustomBadge_def
  by (intro reads_intros) (simp_all add: query_snd)

lemma reads_hasEarned: "reads (hasEarned z userId badge now)"
  unfolding hasEarned_def
  by (intro reads_intros reads_checkStreakBadge reads_checkCountBadge
        reads_checkValueBadge reads_checkCustomBadge)

section \<open>Each service keeps the progress invariant\<close>

lemma progressOk_found:
  "allProgressOk d \<Longrightarrow> fst (findById userId d) = Some user \<Longrightarrow> progressOk user"
  unfolding allProgressOk_def findById_def
  by (auto simp: list_all_iff find_Some_iff)

lemma engineOk_save:
  "engineOk d \<Longrightarrow> progressOk u \<Longrightarrow> engineOk (snd (save u d))"
  by (auto simp: engineOk_def allProgressOk_def rewardsOk_def save_def list_all_iff)

lemma engineOk_createNotification [simp]:
  "engineOk (snd (createNotification n d)) = engineOk d"
  by (simp add: engineOk_def allProgressOk_def rewardsOk_def createNotification_def)

lemma engineOk_createActivity [simp]:
  "engineOk (snd (createActivity a d)) = engineOk d"
  by (simp add: engineOk_def allProgressOk_def rewardsOk_def createActivity_def)

lemma bonusPoints_nonneg: "0 \<le> bonusPoints n"
  by (simp add: bonusPoints_def)

lemma progressOk_streak:
  "progressOk user \<Longrightarrow>
   progressOk ((bumpLongest (bumpStreak user yw))\<lparr>lastWorkoutDate := lw\<rparr>)"
  by (auto simp: progressOk_def bumpLongest_def bumpStreak_def)

lemma progressOk_bonus:
  "progressOk user \<Longrightarrow>
   progressOk ((bumpLongest (bumpStreak user yw))
        \<lparr>lastWorkoutDate := lw,
          totalPoints := totalPoints (bumpLongest (bumpStreak user yw)) + bonusPoints n\<rparr>)"
  by (auto simp: progressOk_def bumpLongest_def bumpStreak_def bonusPoints_def)

lemma engineOk_updateWorkoutStreak:
  assumes "engineOk d"
  shows "wp (updateWorkoutStreak z userId now) (\<lambda>r (d', fs'). engineOk d') (d, fs)"
proof (cases "fst (findById userId d)")
  case None
  then show ?thesis
    unfolding updateWorkoutStreak_def by (simp add: wp_simps assms)
next
  case (Some user)
  have ok: "progressOk user"
    using assms Some by (auto simp: engineOk_def intro: progressOk_found)
  show ?thesis
    unfolding updateWorkoutStreak_def checkStreakMilestones_def
    by (simp add: wp_simps Some assms engineOk_save progressOk_streak[OF ok]
          progressOk_bonus[OF ok] del: not_None_eq)
qed

lemma engineOk_checkAndResetStreak:
  assumes "engineOk d"
  shows "wp (checkAndResetStreak z userId now) (\<lambda>r (d', fs'). engineOk d') (d, fs)"
proof (cases "fst (findById userId d)")
  case None
  then show ?thesis
    unfolding checkAndResetStreak_def by (simp add: wp_simps assms)
next
  case (Some user)
  have ok: "progressOk user"
    using assms Some by (auto simp: engineOk_def intro: progressOk_found)
  have reset: "0 < currentWorkoutStreak user \<Longrightarrow> progressOk (user\<lparr>currentWorkoutStreak := 0\<rparr>)"
    using ok by (simp add: progressOk_def)
  show ?thesis
    unfolding checkAndResetStreak_def
    by (simp add: wp_simps Some assms engineOk_save reset Let_def split: option.splits)
qed

lemma engineOk_awardPoints:
  assumes "engineOk d" and "0 \<le> points"
  shows "wp (awardPoints userId points reason now) (\<lambda>r (d', fs'). engineOk d') (d, fs)"
proof (cases "fst (findById userId d)")
  case None
  then show ?thesis
    unfolding awardPoints_def by (simp add: wp_simps assms)
next
  case (Some user)
  have ok: "progressOk user"
    using assms Some by (auto simp: engineOk_def intro: progressOk_found)
  have credit: "progressOk (user\<lparr>totalPoints := totalPoints user + points\<rparr>)"
    using ok assms(2) by (simp add: progressOk_def)
  show ?thesis
    unfolding awardPoints_def
    by (simp add: wp_simps Some assms engineOk_save credit)
qed

section \<open>Badge evaluation keeps the progress invariant\<close>

lemma wp_andThen_run:
  "m w = (r, w') \<Longrightarrow>
   wp (andThen m f) Q w = (case r of Inl e \<Rightarrow> Q (Inl e) w' | Inr a \<Rightarrow> wp (f a) Q w')"
  by (cases r) (simp_all add: wp_def andThen_def)

lemma hasEarned_run:
  "\<exists>r fs'. hasEarned z userId badge now (d, fs) = (r, (d, fs'))
      \<and> (\<forall>a. r = Inr a \<longrightarrow> fst (hasEarned z userId badge now (d, [])) = Inr a)"
proof -
  obtain r d' fs' where run: "hasEarned z userId badge now (d, fs) = (r, (d', fs'))"
    by (cases "hasEarned z userId badge now (d, fs)") auto
  from reads_any[OF reads_hasEarned run] run show ?thesis by auto
qed

lemma progressOk_pushBadge:
  "progressOk user \<Longrightarrow> 0 \<le> b_points badge \<Longrightarrow> progressOk (pushBadge user badge now)"
  by (simp add: progressOk_def pushBadge_def)

lemma engineOk_awardLoop:
  "engineOk d \<Longrightarrow> progressOk user \<Longrightarrow> list_all (\<lambda>b. 0 \<le> b_points b) bs \<Longrightarrow>
   wp (awardLoop z userId now earnedBadgeIds bs user newBadgesEarned)
      (\<lambda>r (d', fs'). engineOk d'
         \<and> (case r of Inl e \<Rightarrow> True | Inr (user', new') \<Rightarrow> progressOk user')) (d, fs)"
proof (induction bs arbitrary: d fs user newBadgesEarned)
  case Nil
  then show ?case by (simp add: wp_simps)
next
  case (Cons badge rest)
  from Cons.prems have pts: "0 \<le> b_points badge" and rest: "list_all (\<lambda>b. 0 \<le> b_points b) rest"
    by simp_all
  show ?case
  proof (cases "b_id badge \<in> set earnedBadgeIds")
    case True
    then show ?thesis using Cons.IH[OF Cons.prems(1,2) rest] by simp
  next
    case False
    obtain r fs1 where run: "hasEarned z userId badge now (d, fs) = (r, (d, fs1))"
      using hasEarned_run[of z userId badge now d fs] by blast
    note step = wp_andThen_run[where m = "hasEarned z userId badge now", OF run]
    show ?thesis
    proof (cases r)
      case (Inl e)
      with False run Cons.prems(1) show ?thesis
        by (simp add: step)
    next
      case (Inr earned)
      show ?thesis
      proof (cases earned)
        case True
        have "wp (awardLoop z userId now earnedBadgeIds rest (pushBadge user badge now)
                   (newBadgesEarned @ [badge]))
               (\<lambda>r (d', fs'). engineOk d'
                  \<and> (case r of Inl e \<Rightarrow> True | Inr (user', new') \<Rightarrow> progressOk user'))
               (d1, fs2)"
          if "engineOk d1" for d1 fs2
          by (rule Cons.IH[OF that progressOk_pushBadge[OF Cons.prems(2) pts] rest])
        with False Inr True Cons.prems(1) show ?thesis
          by (simp add: step) (simp add: wp_simps)
      next
        case no: False
        with False Inr Cons.IH[OF Cons.prems(1,2) rest] show ?thesis
          by (simp add: step)
      qed
    qed
  qed
qed

lemma engineOk_checkAndAwardBadges:
  assumes "engineOk d"
  shows "wp (checkAndAwardBadges z userId now) (\<lambda>r (d', fs'). engineOk d') (d, fs)"
proof (cases "fst (findById userId d)")
  case None
  then show ?thesis
    unfolding checkAndAwardBadges_def evaluateBadges_def by (simp add: wp_simps assms)
next
  case (Some user)
  have ok: "progressOk user"
    using assms Some by (auto simp: engineOk_def intro: progressOk_found)
  have bs: "list_all (\<lambda>b. 0 \<le> b_points b) (fst (findActiveBadges d))"
    using assms by (auto simp: engineOk_def rewardsOk_def findActiveBadges_def list_all_iff)
  have loop: "wp (awardLoop z userId now (map fst (badges user)) (fst (findActiveBadges d)) user [])
      (\<lambda>r (d', fs'). engineOk d'
         \<and> (case r of Inl e \<Rightarrow> True | Inr (user', new') \<Rightarrow> progressOk user')) (d, fs2)" for fs2
    by (rule engineOk_awardLoop[OF assms ok bs])
  have snd_active: "snd (findActiveBadges d) = d"
    by (simp add: findActiveBadges_def)
  show ?thesis
    unfolding checkAndAwardBadges_def evaluateBadges_def
    apply (simp add: wp_simps Some assms snd_active)
    apply (intro conjI impI)
    apply (rule wp_mono[OF loop])
    apply (auto simp: wp_simps engineOk_save split: sum.splits)
    done
qed

section \<open>The progress invariant over sequences of operations\<close>

lemma wp_fst_snd: "wp m (\<lambda>r (d', fs'). P d') w \<Longrightarrow> P (fst (snd (m w)))"
  by (simp add: wp_def split: prod.splits)

lemma engineOk_perform:
  assumes "engineOk d" and "nonNegativeCredit operation"
  shows "engineOk (perform z operation fs d)"
proof (cases operation)
  case (QualifyingEvent userId now)
  then show ?thesis
    using wp_fst_snd[OF engineOk_updateWorkoutStreak[OF assms(1), of z userId now fs]] by simp
next
  case (DailySweep userId now)
  then show ?thesis
    using wp_fst_snd[OF engineOk_checkAndResetStreak[OF assms(1), of z userId now fs]] by simp
next
  case (Credit userId points reason now)
  with assms(2) have "0 \<le> points" by simp
  from wp_fst_snd[OF engineOk_awardPoints[OF assms(1) this, of userId reason now fs]] Credit
  show ?thesis by simp
next
  case (Evaluate userId now)
  then show ?thesis
    using wp_fst_snd[OF engineOk_checkAndAwardBadges[OF assms(1), of z userId now fs]] by simp
next
  case (LedgerAppend a)
  have "wp (io (createActivity a)) (\<lambda>r (d', fs'). engineOk d') (d, fs)"
    by (simp add: wp_simps assms(1))
  from wp_fst_snd[OF this] LedgerAppend show ?thesis by simp
qed

lemma engineOk_performAll:
  "engineOk d \<Longrightarrow> list_all (\<lambda>p. nonNegativeCredit (fst p)) ops \<Longrightarrow> engineOk (performAll z ops d)"
proof (induction ops arbitrary: d)
  case Nil
  then show ?case by simp
next
  case (Cons p ops)
  obtain operation fs where p: "p = (operation, fs)" by (cases p)
  from Cons.prems have "nonNegativeCredit operation"
    and rest: "list_all (\<lambda>p. nonNegativeCredit (fst p)) ops"
    by (simp_all add: p)
  then have "engineOk (perform z operation fs d)"
    using Cons.prems(1) by (simp add: engineOk_perform)
  from Cons.IH[OF this rest] show ?case by (simp add: p)
qed

text \<open>
  C3. Global progress invariant. Start from any database in which every user has
  \<open>longestWorkoutStreak \<ge> currentWorkoutStreak\<close> and \<open>totalPoints \<ge> 0\<close> and no badge of the
  catalog carries negative points. After any sequence of qualifying-event updates, daily
  sweeps, credits of non-negative amounts, badge evaluations and ledger writes, each under
  any fault schedule, every user still has \<open>longestWorkoutStreak \<ge> currentWorkoutStreak\<close>
  and \<open>totalPoints \<ge> 0\<close>.
\<close>

theorem progress_invariant:
  assumes "\<forall>u \<in> set (User_docs d). currentWorkoutStreak u \<le> longestWorkoutStreak u \<and> 0 \<le> totalPoints u"
    and "\<forall>b \<in> set (Badge_docs d). 0 \<le> b_points b"
    and "\<forall>(operation, fs) \<in> set ops. nonNegativeCredit operation"
  shows "\<forall>u \<in> set (User_docs (performAll z ops d)).
           currentWorkoutStreak u \<le> longestWorkoutStreak u \<and> 0 \<le> totalPoints u"
proof -
  have "engineOk d"
    using assms(1,2) by (simp add: engineOk_def allProgressOk_def rewardsOk_def list_all_iff progressOk_def)
  moreover have "list_all (\<lambda>p. nonNegativeCredit (fst p)) ops"
    using assms(3) by (auto simp: list_all_iff)
  ultimately have "engineOk (performAll z ops d)"
    by (rule engineOk_performAll)
  then show ?thesis
    by (simp add: engineOk_def allProgressOk_def list_all_iff progressOk_def)
qed

lemma weekOps_run:
  "map (\<lambda>u. (currentWorkoutStreak u, longestWorkoutStreak u, totalPoints u, map fst (badges u)))
     (User_docs (performAll utc weekOps weekStart)) = [(0, 7, 215, [11, 12])]"
  by (simp add: weekOps_def weekStart_def updateWorkoutStreak_def checkStreakMilestones_def
        checkAndResetStreak_def awardPoints_def pointsActivity_def brokenNotification_def
        awardLoop.simps badge_defs run_defs example_defs)

theorem progress_invariant_witness:
  "list_all (\<lambda>u. currentWorkoutStreak u \<le> longestWorkoutStreak u \<and> 0 \<le> totalPoints u)
     (User_docs weekStart)
   \<and> list_all (\<lambda>b. 0 \<le> b_points b) (Badge_docs weekStart)
   \<and> list_all (\<lambda>p. nonNegativeCredit (fst p)) weekOps
   \<and> map (\<lambda>u. (currentWorkoutStreak u, longestWorkoutStreak u, totalPoints u, map fst (badges u)))
        (User_docs (performAll utc weekOps weekStart)) = [(0, 7, 215, [11, 12])]
   \<and> list_all (\<lambda>u. currentWorkoutStreak u \<le> longestWorkoutStreak u \<and> 0 \<le> totalPoints u)
        (User_docs (performAll utc weekOps weekStart))"
proof -
  have a: "\<forall>u \<in> set (User_docs weekStart).
       currentWorkoutStreak u \<le> longestWorkoutStreak u \<and> 0 \<le> totalPoints u"
    by (simp add: weekStart_def emptyDb_def member_def)
  have b: "\<forall>b \<in> set (Badge_docs weekStart). 0 \<le> b_points b"
    by (simp add: weekStart_def emptyDb_def firstStep_def weekWarrior_def)
  have c: "\<forall>(operation, fs) \<in> set weekOps. nonNegativeCredit operation"
    by (simp add: weekOps_def)
  from progress_invariant[OF a b c] a b c weekOps_run show ?thesis
    by (simp add: list_all_iff case_prod_beta)
qed

section \<open>What the badge criteria depend on\<close>

lemma andThen_io_nil: "andThen (io f) g (d, []) = g (fst (f d)) (snd (f d), [])"
  by (simp add: andThen_def io_def split: prod.splits)

lemma hasEarned_same_day:
  "startOfDay z now' = startOfDay z now \<Longrightarrow> hasEarned z userId badge now' = hasEarned z userId badge now"
  by (simp add: hasEarned_def checkStreakBadge_def calculateWaterStreak_def)

lemma filter_through:
  assumes "filter P xs' = filter P xs" and "\<And>a. q a \<Longrightarrow> P a"
  shows "filter q xs' = filter q xs"
proof -
  have "filter q ys = filter q (filter P ys)" for ys
    using assms(2) by (induction ys) auto
  then show ?thesis using assms(1) by metis
qed

lemma find_filter: "find q xs = (case filter q xs of [] \<Rightarrow> None | x # _ \<Rightarrow> Some x)"
  by (induction xs) auto

lemma find_through:
  assumes "filter P xs' = filter P xs" and "\<And>a. q a \<Longrightarrow> P a"
  shows "find q xs' = find q xs"
  by (simp add: find_filter filter_through[OF assms])

lemma sameCriteria_count:
  assumes "sameCriteria userId d d'" and "\<forall>a. q a \<longrightarrow> activityType a \<noteq> ''badge_earned''"
  shows "fst (countActivities q d') = fst (countActivities q d)"
  using filter_through[of "\<lambda>a. activityType a \<noteq> ''badge_earned''" "ActivityLog_docs d'"
          "ActivityLog_docs d" q] assms
  by (simp add: sameCriteria_def countActivities_def)

lemma sameCriteria_findOne:
  assumes "sameCriteria userId d d'" and "\<forall>a. q a \<longrightarrow> activityType a \<noteq> ''badge_earned''"
  shows "fst (findOneActivity q d') = fst (findOneActivity q d)"
  using find_through[of "\<lambda>a. activityType a \<noteq> ''badge_earned''" "ActivityLog_docs d'"
          "ActivityLog_docs d" q] assms
  by (simp add: sameCriteria_def findOneActivity_def)

lemma sameCriteria_others:
  assumes "sameCriteria userId d d'"
  shows "fst (countGoals g d') = fst (countGoals g d)"
    and "fst (findOneGoal g d') = fst (findOneGoal g d)"
    and "fst (findOneBiometric b d') = fst (findOneBiometric b d)"
    and "fst (findOneBiometricByDate asc b d') = fst (findOneBiometricByDate asc b d)"
  using assms
  by (simp_all add: sameCriteria_def countGoals_def findOneGoal_def findOneBiometric_def
        findOneBiometricByDate_def)

lemma query_reads [simp]:
  "snd (countActivities q d) = d" "snd (findOneActivity q d) = d"
  "snd (countGoals g d) = d" "snd (findOneGoal g d) = d"
  "snd (findOneBiometric b d) = d" "snd (findOneBiometricByDate asc b d) = d"
  "snd (findActiveBadges d) = d"
  by (simp_all add: query_snd)

lemma frame_waterLoop:
  assumes "sameCriteria userId d d'"
  shows "fst (waterLoop z k userId checkDate streak (d', []))
       = fst (waterLoop z k userId checkDate streak (d, []))"
proof (induction k arbitrary: checkDate streak)
  case 0
  show ?case by (simp add: resolve_def)
next
  case (Suc k)
  show ?case
    by (simp add: andThen_io_nil sameCriteria_others(3)[OF assms] Suc
          resolve_def split: option.splits)
qed

lemma frame_andThen:
  assumes "reads m" and "fst (m (d', [])) = fst (m (d, []))"
    and "\<And>a. fst (k a (d', [])) = fst (k a (d, []))"
  shows "fst (andThen m k (d', [])) = fst (andThen m k (d, []))"
proof -
  obtain r where r: "m (d, []) = (r, (d, []))"
    using reads_nil[OF assms(1)] by blast
  obtain r' where r': "m (d', []) = (r', (d', []))"
    using reads_nil[OF assms(1)] by blast
  from assms(2) r r' have "r' = r" by simp
  with r r' assms(3) show ?thesis by (cases r) (simp_all add: andThen_def)
qed

lemma reads_calculateWaterStreak: "reads (calculateWaterStreak z userId now)"
  unfolding calculateWaterStreak_def
  by (intro reads_intros reads_waterLoop) (simp add: query_snd)

lemma frame_calculateWaterStreak:
  assumes "sameCriteria userId d d'"
  shows "fst (calculateWaterStreak z userId now (d', []))
       = fst (calculateWaterStreak z userId now (d, []))"
  unfolding calculateWaterStreak_def
  by (simp add: andThen_io_nil frame_waterLoop[OF assms])

lemma frame_checkStreakBadge:
  assumes "sameCriteria userId d d'"
  shows "fst (checkStreakBadge z userId badge now (d', []))
       = fst (checkStreakBadge z userId badge now (d, []))"
proof -
  have s: "map_option currentWorkoutStreak (fst (findById userId d'))
        = map_option currentWorkoutStreak (fst (findById userId d))"
    using assms by (simp add: sameCriteria_def)
  note w = frame_andThen[OF reads_calculateWaterStreak frame_calculateWaterStreak[OF assms]]
  show ?thesis
    unfolding checkStreakBadge_def
    using s
    by (cases "fst (findById userId d)"; cases "fst (findById userId d')")
       (simp_all add: andThen_io_nil resolve_def throw_def w)
qed

lemma frame_checkCountBadge:
  assumes "sameCriteria userId d d'"
  shows "fst (checkCountBadge userId badge (d', [])) = fst (checkCountBadge userId badge (d, []))"
  unfolding checkCountBadge_def
  by (simp add: andThen_io_nil resolve_def sameCriteria_count[OF assms]
        sameCriteria_others[OF assms])

lemma frame_checkValueBadge:
  assumes "sameCriteria userId d d'"
  shows "fst (checkValueBadge userId badge (d', [])) = fst (checkValueBadge userId badge (d, []))"
  unfolding checkValueBadge_def
  by (simp add: andThen_io_nil resolve_def sameCriteria_others[OF assms]
       split: option.splits)

lemma frame_checkCustomBadge:
  assumes "sameCriteria userId d d'"
  shows "fst (checkCustomBadge userId badge (d', [])) = fst (checkCustomBadge userId badge (d, []))"
  unfolding checkCustomBadge_def
  by (simp add: andThen_io_nil resolve_def sameCriteria_findOne[OF assms]
        sameCriteria_others[OF assms] del: not_None_eq)

lemma frame_hasEarned:
  assumes "sameCriteria userId d d'"
  shows "fst (hasEarned z userId badge now (d', [])) = fst (hasEarned z userId badge now (d, []))"
  unfolding hasEarned_def
  by (simp add: frame_checkStreakBadge[OF assms] frame_checkCountBadge[OF assms]
        frame_checkValueBadge[OF assms] frame_checkCustomBadge[OF assms] resolve_def)

section \<open>Badge evaluation: the award loop\<close>

lemma sameCriteria_refl [simp]: "sameCriteria userId d d"
  by (simp add: sameCriteria_def)

lemma sameCriteria_trans:
  "sameCriteria userId d d1 \<Longrightarrow> sameCriteria userId d1 d2 \<Longrightarrow> sameCriteria userId d d2"
  by (simp add: sameCriteria_def)

lemma sameCriteria_award:
  "sameCriteria userId d
     (snd (createActivity (badgeActivity userId badge now)
        (snd (createNotification n d))))"
  by (simp add: sameCriteria_def createActivity_def createNotification_def badgeActivity_def
        findById_def)

lemma award_docs [simp]:
  "User_docs (snd (createActivity a (snd (createNotification n d)))) = User_docs d"
  "Badge_docs (snd (createActivity a (snd (createNotification n d)))) = Badge_docs d"
  by (simp_all add: createActivity_def createNotification_def)

lemma loopDone_skip:
  assumes "loopDone z userId now earnedBadgeIds rest d user newBadgesEarned r w"
    and "b_id badge \<in> set earnedBadgeIds
         \<or> fst (hasEarned z userId badge now (d, [])) = Inr False"
  shows "loopDone z userId now earnedBadgeIds (badge # rest) d user newBadgesEarned r w"
  using assms by (auto simp: loopDone_def split: sum.splits)

lemma loopDone_award:
  assumes "loopDone z userId now earnedBadgeIds rest
             (snd (createActivity (badgeActivity userId badge now)
                (snd (createNotification n d))))
             (pushBadge user badge now) (newBadgesEarned @ [badge]) r w"
  shows "loopDone z userId now earnedBadgeIds (badge # rest) d user newBadgesEarned r w"
proof (cases r)
  case (Inl e)
  then show ?thesis by (simp add: loopDone_def)
next
  case (Inr p)
  obtain user' new' where p: "p = (user', new')" by (cases p)
  let ?d2 = "snd (createActivity (badgeActivity userId badge now) (snd (createNotification n d)))"
  note same = sameCriteria_award[of userId d badge now n]
  from assms Inr p have
    1: "sameCriteria userId ?d2 (fst w)"
    and 2: "User_docs (fst w) = User_docs d" "Badge_docs (fst w) = Badge_docs d"
    and 3: "u_id user' = u_id user" "currentWorkoutStreak user' = currentWorkoutStreak user"
    and 4: "set (map fst (badges (pushBadge user badge now))) \<subseteq> set (map fst (badges user'))"
    and 5: "new' \<noteq> []"
    and 6: "list_all (\<lambda>b. b_id b \<in> set earnedBadgeIds
                          \<or> b_id b \<in> set (map fst (badges user'))
                          \<or> fst (hasEarned z userId b now (?d2, [])) = Inr False) rest"
    by (auto simp: loopDone_def pushBadge_def)
  have 7: "b_id badge \<in> set (map fst (badges user'))"
    using 4 by (auto simp: pushBadge_def)
  have 8: "set (map fst (badges user)) \<subseteq> set (map fst (badges user'))"
    using 4 by (auto simp: pushBadge_def)
  have 9: "list_all (\<lambda>b. b_id b \<in> set earnedBadgeIds
                          \<or> b_id b \<in> set (map fst (badges user'))
                          \<or> fst (hasEarned z userId b now (d, [])) = Inr False) rest"
    using 6 by (simp add: frame_hasEarned[OF same])
  show ?thesis
    unfolding loopDone_def Inr p
    using sameCriteria_trans[OF same 1] 2 3 5 7 8 9 by simp
qed

lemma awardLoop_done:
  "wp (awardLoop z userId now earnedBadgeIds bs user newBadgesEarned)
      (loopDone z userId now earnedBadgeIds bs d user newBadgesEarned) (d, fs)"
proof (induction bs arbitrary: d fs user newBadgesEarned)
  case Nil
  show ?case by (simp add: wp_simps loopDone_def)
next
  case (Cons badge rest)
  show ?case
  proof (cases "b_id badge \<in> set earnedBadgeIds")
    case True
    have "wp (awardLoop z userId now earnedBadgeIds rest user newBadgesEarned)
            (loopDone z userId now earnedBadgeIds (badge # rest) d user newBadgesEarned) (d, fs)"
    proof (rule wp_mono[OF Cons.IH[of user newBadgesEarned d fs]])
      fix r w'
      assume "loopDone z userId now earnedBadgeIds rest d user newBadgesEarned r w'"
      then show "loopDone z userId now earnedBadgeIds (badge # rest) d user newBadgesEarned r w'"
        by (rule loopDone_skip) (simp add: True)
    qed
    with True show ?thesis by simp
  next
    case False
    obtain r fs1 where run: "hasEarned z userId badge now (d, fs) = (r, (d, fs1))"
      and clean: "\<forall>a. r = Inr a \<longrightarrow> fst (hasEarned z userId badge now (d, [])) = Inr a"
      using hasEarned_run[of z userId badge now d fs] by blast
    note step = wp_andThen_run[where m = "hasEarned z userId badge now", OF run]
    show ?thesis
    proof (cases r)
      case (Inl e)
      with False show ?thesis by (simp add: step loopDone_def)
    next
      case (Inr earned)
      show ?thesis
      proof (cases earned)
        case True
        have "wp (awardLoop z userId now earnedBadgeIds rest (pushBadge user badge now)
                   (newBadgesEarned @ [badge]))
               (loopDone z userId now earnedBadgeIds (badge # rest) d user newBadgesEarned)
               (snd (createActivity (badgeActivity userId badge now)
                      (snd (createNotification (badgeNotification userId badge) d))), fs2)" for fs2
          by (rule wp_mono[OF Cons.IH loopDone_award])
        with False Inr True show ?thesis
          by (simp add: step) (simp add: wp_simps loopDone_def)
      next
        case no: False
        from clean Inr have "fst (hasEarned z userId badge now (d, [])) = Inr earned" by blast
        with no have "fst (hasEarned z userId badge now (d, [])) = Inr False" by simp
        note verdict = this
        have "wp (awardLoop z userId now earnedBadgeIds rest user newBadgesEarned)
               (loopDone z userId now earnedBadgeIds (badge # rest) d user newBadgesEarned) (d, fs1)"
        proof (rule wp_mono[OF Cons.IH[of user newBadgesEarned d fs1]])
          fix r w'
          assume "loopDone z userId now earnedBadgeIds rest d user newBadgesEarned r w'"
          then show "loopDone z userId now earnedBadgeIds (badge # rest) d user newBadgesEarned r w'"
            by (rule loopDone_skip) (simp add: verdict)
        qed
        with False Inr no show ?thesis by (simp add: step)
      qed
    qed
  qed
qed

lemma awardLoop_nothing_new:
  assumes "list_all (\<lambda>b. b_id b \<in> set earnedBadgeIds
                        \<or> fst (hasEarned z userId b now (d, [])) = Inr False) bs"
  shows "wp (awardLoop z userId now earnedBadgeIds bs user [])
      (\<lambda>r (d', fs'). d' = d \<and> (case r of Inl e \<Rightarrow> True | Inr p \<Rightarrow> p = (user, []))) (d, fs)"
  using assms
proof (induction bs arbitrary: fs)
  case Nil
  show ?case by (simp add: wp_simps)
next
  case (Cons badge rest)
  from Cons.prems have rest: "list_all (\<lambda>b. b_id b \<in> set earnedBadgeIds
                        \<or> fst (hasEarned z userId b now (d, [])) = Inr False) rest"
    by simp
  show ?case
  proof (cases "b_id badge \<in> set earnedBadgeIds")
    case True
    then show ?thesis using Cons.IH[OF rest] by simp
  next
    case False
    with Cons.prems have no: "fst (hasEarned z userId badge now (d, [])) = Inr False" by simp
    obtain r fs1 where run: "hasEarned z userId badge now (d, fs) = (r, (d, fs1))"
      and clean: "\<forall>a. r = Inr a \<longrightarrow> fst (hasEarned z userId badge now (d, [])) = Inr a"
      using hasEarned_run[of z userId badge now d fs] by blast
    note step = wp_andThen_run[where m = "hasEarned z userId badge now", OF run]
    show ?thesis
    proof (cases r)
      case (Inl e)
      with False show ?thesis by (simp add: step)
    next
      case (Inr earned)
      from clean Inr have "fst (hasEarned z userId badge now (d, [])) = Inr earned" by blast
      with no have "\<not> earned" by simp
      with False Inr Cons.IH[OF rest, of fs1] show ?thesis by (simp add: step)
    qed
  qed
qed

section \<open>Badge evaluation: a second evaluation awards nothing\<close>

lemma sameCriteria_save:
  assumes "sameCriteria userId d dl" and "User_docs dl = User_docs d"
    and "fst (findById userId d) = Some user"
    and "u_id user' = u_id user" and "currentWorkoutStreak user' = currentWorkoutStreak user"
  shows "sameCriteria userId d (snd (save user' dl))"
    and "fst (findById userId (snd (save user' dl))) = Some user'"
proof -
  have id: "u_id user' = userId" using findById_id[OF assms(3)] assms(4) by simp
  have fl: "fst (findById userId dl) = Some user"
    using assms(2,3) by (simp add: findById_def)
  show found: "fst (findById userId (snd (save user' dl))) = Some user'"
    by (rule findById_save[OF fl id])
  show "sameCriteria userId d (snd (save user' dl))"
    using assms(1) found assms(3,5)
    by (simp add: sameCriteria_def) (simp add: save_def)
qed

lemma loopDone_saved:
  assumes "loopDone z userId now (map fst (badges user)) bs d user [] (Inr (user', new')) (dl, fsl)"
    and "fst (findById userId d) = Some user"
    and "d1 = (if new' \<noteq> [] then snd (save user' dl) else dl)"
  shows "fst (findById userId d1) = Some user' \<and> Badge_docs d1 = Badge_docs d
     \<and> sameCriteria userId d d1
     \<and> list_all (\<lambda>b. b_id b \<in> set (map fst (badges user'))
                        \<or> fst (hasEarned z userId b now (d, [])) = Inr False) bs"
proof -
  from assms(1) have
    1: "sameCriteria userId d dl"
    and 2: "User_docs dl = User_docs d" "Badge_docs dl = Badge_docs d"
    and 3: "u_id user' = u_id user" "currentWorkoutStreak user' = currentWorkoutStreak user"
    and 4: "set (map fst (badges user)) \<subseteq> set (map fst (badges user'))"
    and 5: "new' = [] \<longrightarrow> user' = user"
    and 6: "list_all (\<lambda>b. b_id b \<in> set (map fst (badges user))
                          \<or> b_id b \<in> set (map fst (badges user'))
                          \<or> fst (hasEarned z userId b now (d, [])) = Inr False) bs"
    by (simp_all add: loopDone_def)
  have 7: "list_all (\<lambda>b. b_id b \<in> set (map fst (badges user'))
                        \<or> fst (hasEarned z userId b now (d, [])) = Inr False) bs"
    using 6 4 by (auto simp: list_all_iff)
  show ?thesis
  proof (cases "new' = []")
    case True
    with 5 have "user' = user" by simp
    moreover have "fst (findById userId dl) = Some user"
      using 2 assms(2) by (simp add: findById_def)
    ultimately show ?thesis using True assms(3) 1 2 7 by simp
  next
    case False
    note s = sameCriteria_save[OF 1 2(1) assms(2) 3]
    have "Badge_docs (snd (save user' dl)) = Badge_docs d"
      using 2 by (simp add: save_def)
    with False assms(3) s 7 show ?thesis by simp
  qed
qed

lemma evaluateBadges_completed:
  "wp (evaluateBadges z userId now)
      (\<lambda>r (d1, fs1). case r of Inl e \<Rightarrow> True | Inr newBadges \<Rightarrow> evaluated z userId now d d1)
      (d, fs)"
proof (cases "fst (findById userId d)")
  case None
  then show ?thesis
    unfolding evaluateBadges_def by (simp add: wp_simps)
next
  case (Some user)
  let ?bs = "fst (findActiveBadges d)"
  have loop: "wp (awardLoop z userId now (map fst (badges user)) ?bs user [])
      (\<lambda>r w. case r of
          Inl e \<Rightarrow> True
        | Inr (user', new') \<Rightarrow>
            evaluated z userId now d (if new' \<noteq> [] then snd (save user' (fst w)) else fst w))
      (d, fs2)" for fs2
  proof (rule wp_mono[OF awardLoop_done[of z userId now "map fst (badges user)" ?bs user "[]" d fs2]])
    fix r w
    assume fin: "loopDone z userId now (map fst (badges user)) ?bs d user [] r w"
    show "case r of
          Inl e \<Rightarrow> True
        | Inr (user', new') \<Rightarrow>
            evaluated z userId now d (if new' \<noteq> [] then snd (save user' (fst w)) else fst w)"
    proof (cases r)
      case (Inl e)
      then show ?thesis by simp
    next
      case (Inr p)
      obtain user' new' where p: "p = (user', new')" by (cases p)
      obtain dl fsl where w: "w = (dl, fsl)" by (cases w)
      note saved = loopDone_saved[OF fin[unfolded Inr p w] Some]
      have "evaluated z userId now d (if new' \<noteq> [] then snd (save user' dl) else dl)"
        unfolding evaluated_def using saved[OF refl] by blast
      then show ?thesis
        by (cases "new' = []") (simp_all add: Inr p w)
    qed
  qed
  show ?thesis
    unfolding evaluateBadges_def
    apply (simp add: wp_simps Some)
    apply (intro impI)
    apply (rule wp_mono[OF loop])
    apply (auto simp: wp_simps split: sum.splits if_splits)
    done
qed

text \<open>
  After a completed evaluation every active badge is either held by the user or has a
  negative verdict, so the loop of the next evaluation finds nothing to award.
\<close>

lemma second_evaluation:
  assumes "evaluated z userId now d d1" and "startOfDay z now' = startOfDay z now"
  shows "wp (checkAndAwardBadges z userId now') (\<lambda>r (d', fs'). r = Inr [] \<and> d' = d1) (d1, fs2)"
proof -
  from assms(1) obtain user1 where
    f: "fst (findById userId d1) = Some user1"
    and b: "Badge_docs d1 = Badge_docs d"
    and c: "sameCriteria userId d d1"
    and l: "list_all (\<lambda>b. b_id b \<in> set (map fst (badges user1))
                        \<or> fst (hasEarned z userId b now (d, [])) = Inr False)
             (fst (findActiveBadges d))"
    unfolding evaluated_def by blast
  have bs: "fst (findActiveBadges d1) = fst (findActiveBadges d)"
    using b by (simp add: findActiveBadges_def)
  have l': "list_all (\<lambda>b. b_id b \<in> set (map fst (badges user1))
                        \<or> fst (hasEarned z userId b now' (d1, [])) = Inr False)
             (fst (findActiveBadges d1))"
    using l by (simp add: bs hasEarned_same_day[OF assms(2)] frame_hasEarned[OF c])
  note loop = awardLoop_nothing_new[OF l', of user1]
  show ?thesis
    unfolding checkAndAwardBadges_def evaluateBadges_def
    apply (simp add: wp_simps f)
    apply (intro impI)
    apply (rule wp_mono[OF loop])
    apply (auto simp: wp_simps split: sum.splits)
    done
qed

section \<open>Badge evaluation: no badge is held twice\<close>

lemma badgesOk_found:
  "badgesOk d \<Longrightarrow> fst (findById userId d) = Some user \<Longrightarrow> distinct (map fst (badges user))"
  unfolding badgesOk_def findById_def
  by (auto simp: list_all_iff find_Some_iff)

lemma badgesOk_save:
  "badgesOk d \<Longrightarrow> distinct (map fst (badges u)) \<Longrightarrow> badgesOk (snd (save u d))"
  by (auto simp: badgesOk_def save_def list_all_iff)

lemma badgesOk_createNotification [simp]:
  "badgesOk (snd (createNotification n d)) = badgesOk d"
  by (simp add: badgesOk_def createNotification_def)

lemma badgesOk_createActivity [simp]:
  "badgesOk (snd (createActivity a d)) = badgesOk d"
  by (simp add: badgesOk_def createActivity_def)

lemma badges_streak [simp]:
  "badges (bumpLongest (bumpStreak user yw)) = badges user"
  by (simp add: bumpLongest_def bumpStreak_def)

lemma badgesOk_updateWorkoutStreak:
  assumes "badgesOk d"
  shows "wp (updateWorkoutStreak z userId now) (\<lambda>r (d', fs'). badgesOk d') (d, fs)"
proof (cases "fst (findById userId d)")
  case None
  then show ?thesis
    unfolding updateWorkoutStreak_def by (simp add: wp_simps assms)
next
  case (Some user)
  note ok = badgesOk_found[OF assms Some]
  show ?thesis
    unfolding updateWorkoutStreak_def checkStreakMilestones_def
    by (simp add: wp_simps Some assms badgesOk_save ok del: not_None_eq)
qed

lemma badgesOk_checkAndResetStreak:
  assumes "badgesOk d"
  shows "wp (checkAndResetStreak z userId now) (\<lambda>r (d', fs'). badgesOk d') (d, fs)"
proof (cases "fst (findById userId d)")
  case None
  then show ?thesis
    unfolding checkAndResetStreak_def by (simp add: wp_simps assms)
next
  case (Some user)
  note ok = badgesOk_found[OF assms Some]
  show ?thesis
    unfolding checkAndResetStreak_def
    by (simp add: wp_simps Some assms badgesOk_save ok Let_def split: option.splits)
qed

lemma badgesOk_awardPoints:
  assumes "badgesOk d"
  shows "wp (awardPoints userId points reason now) (\<lambda>r (d', fs'). badgesOk d') (d, fs)"
proof (cases "fst (findById userId d)")
  case None
  then show ?thesis
    unfolding awardPoints_def by (simp add: wp_simps assms)
next
  case (Some user)
  note ok = badgesOk_found[OF assms Some]
  show ?thesis
    unfolding awardPoints_def
    by (simp add: wp_simps Some assms badgesOk_save ok)
qed

lemma awardLoop_distinct:
  "badgesOk d \<Longrightarrow> distinct (map b_id bs) \<Longrightarrow> distinct (map fst (badges user)) \<Longrightarrow>
   list_all (\<lambda>b. b_id b \<in> set earnedBadgeIds \<or> b_id b \<notin> set (map fst (badges user))) bs \<Longrightarrow>
   wp (awardLoop z userId now earnedBadgeIds bs user newBadgesEarned)
      (\<lambda>r (d', fs'). badgesOk d'
         \<and> (case r of Inl e \<Rightarrow> True | Inr (user', new') \<Rightarrow> distinct (map fst (badges user'))))
      (d, fs)"
proof (induction bs arbitrary: d fs user newBadgesEarned)
  case Nil
  then show ?case by (simp add: wp_simps)
next
  case (Cons badge rest)
  from Cons.prems have rest: "distinct (map b_id rest)"
    and fresh: "b_id badge \<notin> set (map b_id rest)"
    and others: "list_all (\<lambda>b. b_id b \<in> set earnedBadgeIds
                           \<or> b_id b \<notin> set (map fst (badges user))) rest"
    by simp_all
  show ?case
  proof (cases "b_id badge \<in> set earnedBadgeIds")
    case True
    then show ?thesis using Cons.IH[OF Cons.prems(1) rest Cons.prems(3) others] by simp
  next
    case False
    with Cons.prems(4) have new: "b_id badge \<notin> set (map fst (badges user))" by simp
    obtain r fs1 where run: "hasEarned z userId badge now (d, fs) = (r, (d, fs1))"
      using hasEarned_run[of z userId badge now d fs] by blast
    note step = wp_andThen_run[where m = "hasEarned z userId badge now", OF run]
    show ?thesis
    proof (cases r)
      case (Inl e)
      with False Cons.prems(1) show ?thesis by (simp add: step)
    next
      case (Inr earned)
      show ?thesis
      proof (cases earned)
        case True
        have pushed: "distinct (map fst (badges (pushBadge user badge now)))"
          using Cons.prems(3) new by (simp add: pushBadge_def)
        have others': "list_all (\<lambda>b. b_id b \<in> set earnedBadgeIds
               \<or> b_id b \<notin> set (map fst (badges (pushBadge user badge now)))) rest"
          using others fresh by (auto simp: list_all_iff pushBadge_def) (metis imageI)
        have "wp (awardLoop z userId now earnedBadgeIds rest (pushBadge user badge now)
                   (newBadgesEarned @ [badge]))
               (\<lambda>r (d', fs'). badgesOk d'
                  \<and> (case r of Inl e \<Rightarrow> True
                      | Inr (user', new') \<Rightarrow> distinct (map fst (badges user'))))
               (d1, fs2)"
          if "badgesOk d1" for d1 fs2
          by (rule Cons.IH[OF that rest pushed others'])
        with False Inr True Cons.prems(1) show ?thesis
          by (simp add: step) (simp add: wp_simps)
      next
        case no: False
        with False Inr Cons.IH[OF Cons.prems(1) rest Cons.prems(3) others] show ?thesis
          by (simp add: step)
      qed
    qed
  qed
qed

lemma badgesOk_checkAndAwardBadges:
  assumes "badgesOk d"
  shows "wp (checkAndAwardBadges z userId now) (\<lambda>r (d', fs'). badgesOk d') (d, fs)"
proof (cases "fst (findById userId d)")
  case None
  then show ?thesis
    unfolding checkAndAwardBadges_def evaluateBadges_def by (simp add: wp_simps assms)
next
  case (Some user)
  note ok = badgesOk_found[OF assms Some]
  have bs: "distinct (map b_id (fst (findActiveBadges d)))"
    using assms by (simp add: badgesOk_def findActiveBadges_def distinct_map_filter)
  have loop: "wp (awardLoop z userId now (map fst (badges user)) (fst (findActiveBadges d)) user [])
      (\<lambda>r (d', fs'). badgesOk d'
         \<and> (case r of Inl e \<Rightarrow> True | Inr (user', new') \<Rightarrow> distinct (map fst (badges user'))))
      (d, fs2)" for fs2
    by (rule awardLoop_distinct[OF assms bs ok]) (simp add: list_all_iff)
  show ?thesis
    unfolding checkAndAwardBadges_def evaluateBadges_def
    apply (simp add: wp_simps Some assms)
    apply (intro conjI impI)
    apply (rule wp_mono[OF loop])
    apply (auto simp: wp_simps badgesOk_save split: sum.splits)
    done
qed

lemma badgesOk_perform:
  assumes "badgesOk d"
  shows "badgesOk (perform z operation fs d)"
proof (cases operation)
  case (QualifyingEvent userId now)
  then show ?thesis
    using wp_fst_snd[OF badgesOk_updateWorkoutStreak[OF assms, of z userId now fs]] by simp
next
  case (DailySweep userId now)
  then show ?thesis
    using wp_fst_snd[OF badgesOk_checkAndResetStreak[OF assms, of z userId now fs]] by simp
next
  case (Credit userId points reason now)
  then show ?thesis
    using wp_fst_snd[OF badgesOk_awardPoints[OF assms, of userId points reason now fs]] by simp
next
  case (Evaluate userId now)
  then show ?thesis
    using wp_fst_snd[OF badgesOk_checkAndAwardBadges[OF assms, of z userId now fs]] by simp
next
  case (LedgerAppend a)
  have "wp (io (createActivity a)) (\<lambda>r (d', fs'). badgesOk d') (d, fs)"
    by (simp add: wp_simps assms)
  from wp_fst_snd[OF this] LedgerAppend show ?thesis by simp
qed

lemma badgesOk_performAll: "badgesOk d \<Longrightarrow> badgesOk (performAll z ops d)"
  by (induction ops arbitrary: d) (auto simp: badgesOk_perform)

text \<open>
  C4 (as the code has it). When an evaluation has run to completion (its \<^verbatim>\<open>try\<close> block
  did not raise), a second evaluation for the same user at any time of the same calendar
  day, with nothing written in between and under any fault schedule, returns the empty list
  and leaves the database as it is. And when no user holds a badge twice and the catalog has
  no two badges with the same id, then after any sequence of evaluations and other engine
  operations, each under any fault schedule, no user holds a badge twice.
\<close>

theorem badge_evaluation_idempotent:
  "(evaluateBadges z userId now (d, fs) = (Inr newBadges, (d1, fs1))
      \<and> startOfDay z now' = startOfDay z now
    \<longrightarrow> fst (checkAndAwardBadges z userId now' (d1, fs2)) = Inr []
        \<and> fst (snd (checkAndAwardBadges z userId now' (d1, fs2))) = d1)
   \<and> ((\<forall>u \<in> set (User_docs d0). distinct (map fst (badges u)))
        \<and> distinct (map b_id (Badge_docs d0))
    \<longrightarrow> (\<forall>u \<in> set (User_docs (performAll z ops d0)). distinct (map fst (badges u))))"
proof (intro conjI impI)
  assume a: "evaluateBadges z userId now (d, fs) = (Inr newBadges, (d1, fs1))
      \<and> startOfDay z now' = startOfDay z now"
  then have "evaluated z userId now d d1"
    using wpI[OF _ evaluateBadges_completed, of z userId now d fs "Inr newBadges" "(d1, fs1)"]
    by simp
  from second_evaluation[OF this, of now' fs2] a
  have "wp (checkAndAwardBadges z userId now') (\<lambda>r (d', fs'). r = Inr [] \<and> d' = d1) (d1, fs2)"
    by simp
  then show "fst (checkAndAwardBadges z userId now' (d1, fs2)) = Inr []"
    and "fst (snd (checkAndAwardBadges z userId now' (d1, fs2))) = d1"
    by (simp_all add: wp_def split: prod.splits)
next
  assume "(\<forall>u \<in> set (User_docs d0). distinct (map fst (badges u)))
        \<and> distinct (map b_id (Badge_docs d0))"
  then have "badgesOk d0" by (simp add: badgesOk_def list_all_iff)
  then have "badgesOk (performAll z ops d0)" by (rule badgesOk_performAll)
  then show "\<forall>u \<in> set (User_docs (performAll z ops d0)). distinct (map fst (badges u))"
    by (simp add: badgesOk_def list_all_iff)
qed

theorem badge_evaluation_idempotent_witness:
  "fst (evaluateBadges utc 1 (day 10 + 3600000) (badgeDb, [])) = Inr [firstStep, weekWarrior]
   \<and> startOfDay utc (day 10 + 7200000) = startOfDay utc (day 10 + 3600000)
   \<and> fst (checkAndAwardBadges utc 1 (day 10 + 7200000)
             (fst (snd (evaluateBadges utc 1 (day 10 + 3600000) (badgeDb, []))), [])) = Inr []
   \<and> list_all (\<lambda>u. distinct (map fst (badges u))) (User_docs weekStart)
   \<and> distinct (map b_id (Badge_docs weekStart))
   \<and> list_all (\<lambda>u. distinct (map fst (badges u))) (User_docs (performAll utc weekOps weekStart))
   \<and> map (\<lambda>u. map fst (badges u)) (User_docs (performAll utc weekOps weekStart)) = [[11, 12]]"
proof -
  let ?run = "evaluateBadges utc 1 (day 10 + 3600000) (badgeDb, [])"
  have r: "?run = (Inr [firstStep, weekWarrior], (fst (snd ?run), snd (snd ?run)))"
    using badgeDb_run by (metis prod.collapse)
  have s: "startOfDay utc (day 10 + 7200000) = startOfDay utc (day 10 + 3600000)"
    by (simp add: utc_def day_def DAY_def)
  have u: "\<forall>u \<in> set (User_docs weekStart). distinct (map fst (badges u))"
    by (simp add: weekStart_def emptyDb_def member_def)
  have c: "distinct (map b_id (Badge_docs weekStart))"
    by (simp add: weekStart_def emptyDb_def firstStep_def weekWarrior_def)
  have w: "map (\<lambda>u. map fst (badges u)) (User_docs (performAll utc weekOps weekStart)) = [[11, 12]]"
    using arg_cong[OF weekOps_run, of "map (\<lambda>p. snd (snd (snd p)))"] by (simp add: comp_def)
  note t = badge_evaluation_idempotent[of utc 1 "day 10 + 3600000" badgeDb "[]"
      "[firstStep, weekWarrior]" "fst (snd ?run)" "snd (snd ?run)" "day 10 + 7200000" "[]"
      weekStart weekOps]
  from t r s u c have
    "fst (checkAndAwardBadges utc 1 (day 10 + 7200000) (fst (snd ?run), [])) = Inr []"
    and "\<forall>u \<in> set (User_docs (performAll utc weekOps weekStart)). distinct (map fst (badges u))"
    by blast+
  with badgeDb_run s u c w show ?thesis by (simp add: list_all_iff)
qed

lemma waterLoop_numeral:
  "waterLoop z (numeral n) userId checkDate streak =
     andThen (io (findOneBiometric (\<lambda>b. bm_userId b = userId \<and> bm_type b = ''water_intake''
                                      \<and> checkDate \<le> bm_date b \<and> bm_date b < subDays z checkDate (- 1))))
       (\<lambda>waterIntake.
          case waterIntake of
            None \<Rightarrow> resolve streak
          | Some b \<Rightarrow>
              if 2000 \<le> bm_value b
              then waterLoop z (pred_numeral n) userId (subDays z checkDate 1) (streak + 1)
              else resolve streak)"
  by (simp add: numeral_eq_Suc)

text \<open>
  C4 as stated fails in two ways. First, an evaluation that fails inside: both badges are
  earned, the notifications and ledger entries are written, then \<^verbatim>\<open>user.save\<close> rejects;
  the call returns the empty list as if nothing were earned, and the next evaluation, with
  nothing written in between, returns both badges and writes their notifications a second
  time. Second, a change of day: the water streak is counted back from today, so an
  evaluation on day 10 finds six days, completes with the empty list and writes nothing,
  and an evaluation on day 11 finds seven days and awards the badge.
\<close>

theorem badge_evaluation_counterexample:
  "fst (checkAndAwardBadges utc 1 (day 10 + 3600000)
          (badgeDb, [False, False, False, False, False, False, False, False, True])) = Inr []
   \<and> fst (checkAndAwardBadges utc 1 (day 10 + 7200000)
          (fst (snd (checkAndAwardBadges utc 1 (day 10 + 3600000)
             (badgeDb, [False, False, False, False, False, False, False, False, True]))), []))
       = Inr [firstStep, weekWarrior]
   \<and> map n_notice (Notification_docs
          (fst (snd (checkAndAwardBadges utc 1 (day 10 + 7200000)
             (fst (snd (checkAndAwardBadges utc 1 (day 10 + 3600000)
                (badgeDb, [False, False, False, False, False, False, False, False, True]))),
              [])))))
       = [StreakDays 7, NewBadge ''First Step'', NewBadge ''Week Warrior'',
          NewBadge ''First Step'', NewBadge ''Week Warrior'']
   \<and> evaluateBadges utc 1 (day 10 + 3600000) (hydrationDb, []) = (Inr [], (hydrationDb, []))
   \<and> fst (checkAndAwardBadges utc 1 (day 11 + 3600000) (hydrationDb, [])) = Inr [hydrationHero]"
  by (simp add: waterLoop_numeral badge_defs run_defs example_defs
        hydrationDb_def hydrationHero_def waterAt_def calculateWaterStreak_def
        findOneBiometric_def HOUR_def)

end
